theory Spec2Isabelle
  imports Main "HOL-Library.Word"
begin

unbundle bit_operations_syntax

section \<open>The image generation scripts\<close>

text \<open>
  Three Python scripts call a remote generative-image service and write the images it
  returns into an \<open>images\<close> directory: \<open>generate-hero.py\<close> (one image),
  \<open>generate-images.py\<close> (a batch of independent prompts) and
  \<open>generate-process-images.py\<close> (a batch in which every generated image is sent along
  with the next request). The model below follows the three files function by function.
  Everything outside the interpreter is explicit: the remote service is an oracle that
  answers a request given the history of effects so far, and the console, the file
  system, the network and the clock are fields of a \<open>world\<close> record that every
  operation takes and returns. An operation that can raise returns the exception or its
  value, next to the world it leaves.
\<close>

subsection \<open>JSON values of the service's interface\<close>

text \<open>
  The dictionaries of the request and response bodies, one record per JSON object. A key
  that the code reads with \<open>.get(key, default)\<close> or tests with \<open>in\<close> is an
  optional field; \<open>mimeType\<close> and \<open>data\<close> are read with \<open>[...]\<close> and belong to
  every \<open>inlineData\<close> object of the interface. Field \<open>part_text\<close> is the key
  \<open>'text'\<close>. A \<open>char\<close> below 128 is that ASCII character; the others stand for the
  characters outside ASCII.
\<close>

type_synonym byte = "8 word"

record inline_data =
  mimeType :: string
  data :: string

record part =
  part_text :: "string option"
  inlineData :: "inline_data option"

record content_obj =
  parts :: "part list option"

record candidate =
  content :: "content_obj option"

record error_obj =
  message :: "string option"

record response =
  error :: "error_obj option"
  candidates :: "candidate list option"

text \<open>
  The request: the URL (it carries the API key), the \<open>parts\<close> of its single
  \<open>contents\<close> entry, the requested modalities and the timeout given to \<open>urlopen\<close>.
\<close>

record request =
  url :: string
  contents :: "part list"
  responseModalities :: "string list"
  timeout :: nat

record prompt_spec =
  name :: string
  prompt :: string

subsection \<open>Paths\<close>

text \<open>
  \<open>pathlib\<close>'s paths in the POSIX flavour: a root, which is empty, \<open>/\<close> or \<open>//\<close>,
  and the components. Making a path from a string drops the empty components and the
  components \<open>.\<close> (so \<open>a//b\<close>, \<open>a/./b\<close> and \<open>a/b/\<close> are \<open>a/b\<close>); exactly two
  leading slashes are the root \<open>//\<close>, any other number of them the root \<open>/\<close>. The
  operator \<open>/\<close> appends the components of its right operand, unless that has a root of
  its own: then the result is the right operand alone.
\<close>

record path =
  anchor :: string
  segments :: "string list"

fun split_slash :: "string \<Rightarrow> string list" where
  "split_slash [] = [[]]"
| "split_slash (c # cs) =
     (if c = CHR ''/'' then [] # split_slash cs
      else (case split_slash cs of [] \<Rightarrow> [[c]] | x # xs \<Rightarrow> (c # x) # xs))"

definition posix_root :: "string \<Rightarrow> string" where
  "posix_root s =
     (if take 2 s = ''//'' \<and> take 3 s \<noteq> ''///'' then ''//''
      else if take 1 s = ''/'' then ''/''
      else [])"

definition PurePosixPath :: "string \<Rightarrow> path" where
  "PurePosixPath s =
     \<lparr>anchor = posix_root s,
      segments = filter (\<lambda>x. x \<noteq> [] \<and> x \<noteq> ''.'') (split_slash s)\<rparr>"

text \<open>\<open>d / f\<close> for a path \<open>d\<close> and a string \<open>f\<close>.\<close>

definition path_join :: "path \<Rightarrow> string \<Rightarrow> path" where
  "path_join d f =
     (if anchor (PurePosixPath f) = [] then
        \<lparr>anchor = anchor d, segments = segments d @ segments (PurePosixPath f)\<rparr>
      else PurePosixPath f)"

fun join_slash :: "string list \<Rightarrow> string" where
  "join_slash [] = []"
| "join_slash [x] = x"
| "join_slash (x # y # ys) = x @ ''/'' @ join_slash (y # ys)"

text \<open>\<open>str\<close> of a path.\<close>

definition str_path :: "path \<Rightarrow> string" where
  "str_path p =
     (if anchor p = [] \<and> segments p = [] then ''.''
      else anchor p @ join_slash (segments p))"

subsection \<open>Exceptions, effects and the world\<close>

text \<open>
  \<open>Exception m\<close> is \<open>raise Exception(m)\<close> of the scripts themselves;
  \<open>LibraryError m\<close> is any other exception class derived from \<open>Exception\<close> that a
  library call raises (\<open>URLError\<close>, a timeout, a JSON decoding error,
  \<open>binascii.Error\<close>, \<open>OSError\<close>, \<open>UnicodeEncodeError\<close>), with \<open>m\<close> its \<open>str\<close>.
\<close>

datatype exn = Exception string | LibraryError string

fun str_exn :: "exn \<Rightarrow> string" where
  "str_exn (Exception m) = m"
| "str_exn (LibraryError m) = m"

text \<open>
  What \<open>urlopen\<close> followed by \<open>json.loads(response.read())\<close> can give: a decoded
  body, \<open>urllib.error.HTTPError\<close> with its status code, reason and body, or any other
  failure.
\<close>

datatype http_outcome =
  Body response
| HTTPError nat string string
| Failure string

datatype event =
  Request request
| Sleep nat
| WriteFile path
| MkDir path

text \<open>
  The world: the files with their contents, the directories, the paths where the
  operating system refuses a write, the characters outside ASCII that the encoding of
  the standard output has, the lines printed so far, and the requests, pauses and file
  operations so far.
\<close>

record world =
  files :: "path \<rightharpoonup> byte list"
  dirs :: "path set"
  unwritable :: "path set"
  console :: "char \<Rightarrow> bool"
  stdout :: "string list"
  timeline :: "event list"

type_synonym remote = "event list \<Rightarrow> request \<Rightarrow> http_outcome"

datatype exit_status = Exit nat | Uncaught exn

text \<open>
  One statement after another: the second runs on the value and the world of the first,
  unless the first raised.
\<close>

definition and_then ::
  "(world \<Rightarrow> (exn + 'a) \<times> world) \<Rightarrow> ('a \<Rightarrow> world \<Rightarrow> (exn + 'b) \<times> world) \<Rightarrow> world
     \<Rightarrow> (exn + 'b) \<times> world" where
  "and_then m f w = (case m w of (Inl e, w') \<Rightarrow> (Inl e, w') | (Inr a, w') \<Rightarrow> f a w')"

text \<open>
  \<open>print\<close> raises \<open>UnicodeEncodeError\<close> on a text with a character that the encoding
  of the standard output does not have. Every such encoding has the ASCII characters.
\<close>

definition printable :: "world \<Rightarrow> string \<Rightarrow> bool" where
  "printable w s = list_all (\<lambda>c. of_char c < (128::nat) \<or> console w c) s"

definition print :: "string \<Rightarrow> world \<Rightarrow> (exn + unit) \<times> world" where
  "print s w =
     (if printable w s then (Inr (), w\<lparr>stdout := stdout w @ [s]\<rparr>)
      else (Inl (LibraryError ''codec cannot encode character''), w))"

definition sleep :: "nat \<Rightarrow> world \<Rightarrow> world" where
  "sleep secs w = w\<lparr>timeline := timeline w @ [Sleep secs]\<rparr>"

definition urlopen :: "remote \<Rightarrow> request \<Rightarrow> world \<Rightarrow> http_outcome \<times> world" where
  "urlopen remote req w = (remote (timeline w) req, w\<lparr>timeline := timeline w @ [Request req]\<rparr>)"

text \<open>
  \<open>Path.mkdir(exist_ok=True)\<close>: nothing happens when the directory exists; a file of
  that name makes it raise.
\<close>

definition mkdir :: "path \<Rightarrow> world \<Rightarrow> (exn + unit) \<times> world" where
  "mkdir d w =
     (if d \<in> dom (files w) then
        (Inl (LibraryError (''[Errno 17] File exists: '' @ str_path d)), w)
      else if d \<in> dirs w then (Inr (), w)
      else (Inr (), w\<lparr>dirs := insert d (dirs w), timeline := timeline w @ [MkDir d]\<rparr>))"

text \<open>
  \<open>Path.write_bytes\<close>: creates or overwrites the file; the paths in \<open>unwritable\<close>
  are those where the operating system refuses.
\<close>

definition write_bytes :: "path \<Rightarrow> byte list \<Rightarrow> world \<Rightarrow> (exn + unit) \<times> world" where
  "write_bytes f bs w =
     (if f \<in> unwritable w then
        (Inl (LibraryError (''[Errno 13] Permission denied: '' @ str_path f)), w)
      else (Inr (), w\<lparr>files := (files w)(f \<mapsto> bs), timeline := timeline w @ [WriteFile f]\<rparr>))"

definition nl :: string where
  "nl = [CHR 0x0A]"

text \<open>\<open>str\<close> of a non-negative integer, for the f-strings.\<close>

function str_nat :: "nat \<Rightarrow> string" where
  "str_nat n =
     (if n < 10 then [char_of (48 + n)] else str_nat (n div 10) @ [char_of (48 + n mod 10)])"
  by pat_completeness auto
termination
  by (relation "measure id") auto

declare str_nat.simps [simp del]

text \<open>\<open>needle in haystack\<close> on strings.\<close>

fun startswith :: "string \<Rightarrow> string \<Rightarrow> bool" where
  "startswith s [] = True"
| "startswith [] (p # ps) = False"
| "startswith (c # cs) (p # ps) = (c = p \<and> startswith cs ps)"

fun str_in :: "string \<Rightarrow> string \<Rightarrow> bool" where
  "str_in needle [] = (needle = [])"
| "str_in needle (c # cs) = (startswith (c # cs) needle \<or> str_in needle cs)"

subsection \<open>\<open>base64.b64decode\<close> and \<open>base64.b64encode\<close>\<close>

text \<open>
  The standard library's functions, after CPython's \<open>binascii\<close> module. Decoding a
  \<open>str\<close> first requires ASCII; \<open>a2b_base64\<close> in its default non-strict mode then
  skips every character outside the alphabet, stops at a complete padding sequence and
  fails when the data characters do not fill the last quad.
\<close>

definition b64_alphabet :: string where
  "b64_alphabet = ''ABCDEFGHIJKLMNOPQRSTUVWXYZabcdefghijklmnopqrstuvwxyz0123456789+/''"

fun index_of :: "'a list \<Rightarrow> 'a \<Rightarrow> nat option" where
  "index_of [] y = None"
| "index_of (x # xs) y = (if x = y then Some 0 else map_option Suc (index_of xs y))"

definition table_b2a_base64 :: "byte \<Rightarrow> char" where
  "table_b2a_base64 v = b64_alphabet ! unat (v AND 63)"

definition table_a2b_base64 :: "char \<Rightarrow> byte option" where
  "table_a2b_base64 c = map_option of_nat (index_of b64_alphabet c)"

fun a2b_loop :: "string \<Rightarrow> nat \<Rightarrow> byte \<Rightarrow> nat \<Rightarrow> byte list \<Rightarrow> exn + byte list" where
  "a2b_loop [] quad_pos leftchar pads bin =
     (if quad_pos = 0 then Inr bin
      else if quad_pos = 1 then
        Inl (LibraryError (''Invalid base64-encoded string: number of data characters (''
               @ str_nat (length bin div 3 * 4 + 1)
               @ '') cannot be 1 more than a multiple of 4''))
      else Inl (LibraryError ''Incorrect padding''))"
| "a2b_loop (c # rest) quad_pos leftchar pads bin =
     (if c = CHR ''='' then
        (if 2 \<le> quad_pos \<and> 4 \<le> quad_pos + (pads + 1) then Inr bin
         else a2b_loop rest quad_pos leftchar (if 2 \<le> quad_pos then pads + 1 else pads) bin)
      else
        (case table_a2b_base64 c of
           None \<Rightarrow> a2b_loop rest quad_pos leftchar pads bin
         | Some this_ch \<Rightarrow>
             (if quad_pos = 0 then a2b_loop rest 1 this_ch 0 bin
              else if quad_pos = 1 then
                a2b_loop rest 2 (this_ch AND 0x0f) 0
                  (bin @ [push_bit 2 leftchar OR drop_bit 4 this_ch])
              else if quad_pos = 2 then
                a2b_loop rest 3 (this_ch AND 0x03) 0
                  (bin @ [push_bit 4 leftchar OR drop_bit 2 this_ch])
              else a2b_loop rest 0 0 0 (bin @ [push_bit 6 leftchar OR this_ch]))))"

definition a2b_base64 :: "string \<Rightarrow> exn + byte list" where
  "a2b_base64 s = a2b_loop s 0 0 0 []"

definition b64decode :: "string \<Rightarrow> exn + byte list" where
  "b64decode s =
     (if list_all (\<lambda>c. of_char c < (128::nat)) s then a2b_base64 s
      else Inl (LibraryError ''string argument should contain only ASCII characters''))"

fun b64encode :: "byte list \<Rightarrow> string" where
  "b64encode [] = []"
| "b64encode [a] =
     [table_b2a_base64 (drop_bit 2 a), table_b2a_base64 (push_bit 4 (a AND 3)),
      CHR ''='', CHR ''='']"
| "b64encode [a, b] =
     [table_b2a_base64 (drop_bit 2 a), table_b2a_base64 (push_bit 4 (a AND 3) OR drop_bit 4 b),
      table_b2a_base64 (push_bit 2 (b AND 15)), CHR ''='']"
| "b64encode (a # b # c # rest) =
     [table_b2a_base64 (drop_bit 2 a), table_b2a_base64 (push_bit 4 (a AND 3) OR drop_bit 4 b),
      table_b2a_base64 (push_bit 2 (b AND 15) OR drop_bit 6 c), table_b2a_base64 (c AND 63)]
     @ b64encode rest"

subsection \<open>Code shared by the scripts\<close>

definition MODEL :: string where
  "MODEL = ''gemini-2.0-flash-exp''"

text \<open>The f-string of the endpoint; \<open>API_KEY\<close> is \<open>os.environ.get('GEMINI_API_KEY')\<close>.\<close>

definition api_url :: "string option \<Rightarrow> string" where
  "api_url API_KEY =
     ''https://generativelanguage.googleapis.com/v1beta/models/'' @ MODEL
       @ '':generateContent?key='' @ (case API_KEY of None \<Rightarrow> ''None'' | Some k \<Rightarrow> k)"

text \<open>\<open>candidate.get('content', {}).get('parts', [])\<close>\<close>

definition candidate_parts :: "candidate \<Rightarrow> part list" where
  "candidate_parts c =
     (case content c of
        None \<Rightarrow> []
      | Some ct \<Rightarrow> (case parts ct of None \<Rightarrow> [] | Some ps \<Rightarrow> ps))"

text \<open>
  The two nested \<open>for\<close> loops of all three scripts: the inner one leaves at the first
  part that has the key \<open>'inlineData'\<close>, with its \<open>mimeType\<close> and \<open>data\<close>.
\<close>

fun scan_parts :: "part list \<Rightarrow> inline_data option" where
  "scan_parts [] = None"
| "scan_parts (p # ps) =
     (case inlineData p of
        Some d \<Rightarrow> Some \<lparr>mimeType = mimeType d, data = data d\<rparr>
      | None \<Rightarrow> scan_parts ps)"

fun scan_candidates :: "candidate list \<Rightarrow> inline_data option" where
  "scan_candidates [] = None"
| "scan_candidates (c # cs) =
     (case scan_parts (candidate_parts c) of
        Some d \<Rightarrow> Some d
      | None \<Rightarrow> scan_candidates cs)"

text \<open>\<open>result.get('candidates', [])\<close>\<close>

definition get_candidates :: "response \<Rightarrow> candidate list" where
  "get_candidates result = (case candidates result of None \<Rightarrow> [] | Some cs \<Rightarrow> cs)"

text \<open>
  The body of the \<open>with urlopen(...)\<close> block of the two batch scripts (the same
  statements in both): the \<open>'error'\<close> check, the scan, and the final \<open>raise\<close>.
\<close>

definition read_result :: "response \<Rightarrow> exn + inline_data" where
  "read_result result =
     (case error result of
        Some e \<Rightarrow>
          Inl (Exception (case message e of None \<Rightarrow> ''Unknown error'' | Some m \<Rightarrow> m))
      | None \<Rightarrow>
          (case scan_candidates (get_candidates result) of
             Some found \<Rightarrow> Inr found
           | None \<Rightarrow> Inl (Exception ''No image in response'')))"

text \<open>
  The \<open>try\<close> around it: \<open>HTTPError\<close> is turned into an \<open>Exception\<close> with the
  status code and the body, everything else passes through.
\<close>

definition call_api :: "remote \<Rightarrow> request \<Rightarrow> world \<Rightarrow> (exn + inline_data) \<times> world" where
  "call_api remote req w =
     (case urlopen remote req w of
        (Body result, w') \<Rightarrow> (read_result result, w')
      | (HTTPError code reason error_body, w') \<Rightarrow>
          (Inl (Exception (''HTTP '' @ str_nat code @ '': '' @ error_body)), w')
      | (Failure m, w') \<Rightarrow> (Inl (LibraryError m), w'))"

text \<open>
  \<open>save_image\<close>, the same function in both batch scripts: the file is written before
  the line is printed.
\<close>

definition image_ext :: "string \<Rightarrow> string" where
  "image_ext mime = (if str_in ''png'' mime then ''png'' else ''jpg'')"

definition save_image :: "path \<Rightarrow> string \<Rightarrow> inline_data \<Rightarrow> world \<Rightarrow> (exn + path) \<times> world" where
  "save_image images_dir nm image_data w =
     (let ext = image_ext (mimeType image_data);
          filename = path_join images_dir (nm @ ''.'' @ ext)
      in case b64decode (data image_data) of
           Inl e \<Rightarrow> (Inl e, w)
         | Inr image_bytes \<Rightarrow>
             and_then (write_bytes filename image_bytes)
               (\<lambda>u. and_then (print (''  Saved: '' @ str_path filename))
                  (\<lambda>u' w'. (Inr filename, w'))) w)"

subsection \<open>\<open>generate-images.py\<close>\<close>

definition images_request :: "string option \<Rightarrow> string \<Rightarrow> request" where
  "images_request API_KEY p =
     \<lparr>url = api_url API_KEY,
      contents = [\<lparr>part_text = Some p, inlineData = None\<rparr>],
      responseModalities = [''TEXT'', ''IMAGE''],
      timeout = 60\<rparr>"

definition images_generate_image ::
  "remote \<Rightarrow> string option \<Rightarrow> string \<Rightarrow> world \<Rightarrow> (exn + inline_data) \<times> world" where
  "images_generate_image remote API_KEY p w = call_api remote (images_request API_KEY p) w"

text \<open>The two counters of \<open>main\<close>.\<close>

record counters =
  successful :: nat
  failed :: nat

text \<open>
  The statements of the \<open>try\<close> block that can raise: \<open>generate_image\<close>, then
  \<open>save_image\<close>.
\<close>

definition images_try ::
  "remote \<Rightarrow> string option \<Rightarrow> path \<Rightarrow> prompt_spec \<Rightarrow> world \<Rightarrow> (exn + inline_data) \<times> world" where
  "images_try remote API_KEY images_dir img w =
     (case images_generate_image remote API_KEY (prompt img) w of
        (Inl e, w1) \<Rightarrow> (Inl e, w1)
      | (Inr image_data, w1) \<Rightarrow>
          (case save_image images_dir (name img) image_data w1 of
             (Inl e, w2) \<Rightarrow> (Inl e, w2)
           | (Inr filename, w2) \<Rightarrow> (Inr image_data, w2)))"

text \<open>
  One pass through the body of the \<open>for\<close> loop. The first \<open>print\<close> stands before the
  \<open>try\<close>, and the handler prints before it counts: what either of them raises leaves
  the loop.
\<close>

definition images_iteration ::
  "remote \<Rightarrow> string option \<Rightarrow> path \<Rightarrow> counters \<Rightarrow> prompt_spec \<Rightarrow> world
     \<Rightarrow> (exn + counters) \<times> world" where
  "images_iteration remote API_KEY images_dir st img =
     and_then (print (''Generating: '' @ name img @ ''...''))
       (\<lambda>u w.
          case images_try remote API_KEY images_dir img w of
            (Inr image_data, w') \<Rightarrow> (Inr (st\<lparr>successful := successful st + 1\<rparr>), sleep 3 w')
          | (Inl e, w') \<Rightarrow>
              and_then (print (''  Failed: '' @ str_exn e))
                (\<lambda>u' w''. (Inr (st\<lparr>failed := failed st + 1\<rparr>), w'')) w')"

fun images_loop ::
  "remote \<Rightarrow> string option \<Rightarrow> path \<Rightarrow> prompt_spec list \<Rightarrow> counters \<Rightarrow> world
     \<Rightarrow> (exn + counters) \<times> world" where
  "images_loop remote API_KEY images_dir [] st w = (Inr st, w)"
| "images_loop remote API_KEY images_dir (img # rest) st w =
     (case images_iteration remote API_KEY images_dir st img w of
        (Inl e, w') \<Rightarrow> (Inl e, w')
      | (Inr st', w') \<Rightarrow> images_loop remote API_KEY images_dir rest st' w')"

text \<open>
  \<open>main\<close>: the two opening lines and the counters set to zero, the loop, the closing
  lines with the two counters. It returns \<open>None\<close>.
\<close>

definition images_begin :: "prompt_spec list \<Rightarrow> world \<Rightarrow> (exn + counters) \<times> world" where
  "images_begin image_prompts =
     and_then (print (''Starting IWT image generation...'' @ nl))
       (\<lambda>u. and_then (print (''Generating '' @ str_nat (length image_prompts)
                               @ '' images in isometric flat-color style'' @ nl))
          (\<lambda>u' w. (Inr \<lparr>successful = 0, failed = 0\<rparr>, w)))"

definition images_end :: "path \<Rightarrow> counters \<Rightarrow> world \<Rightarrow> (exn + unit) \<times> world" where
  "images_end images_dir st =
     and_then (print (nl @ ''Image generation complete!''))
       (\<lambda>u. and_then (print (''  Successful: '' @ str_nat (successful st)))
          (\<lambda>u'. and_then (print (''  Failed: '' @ str_nat (failed st)))
             (\<lambda>u''. print (''  Images saved to: '' @ str_path images_dir))))"

definition images_main ::
  "remote \<Rightarrow> string option \<Rightarrow> path \<Rightarrow> prompt_spec list \<Rightarrow> world \<Rightarrow> (exn + unit) \<times> world" where
  "images_main remote API_KEY images_dir image_prompts =
     and_then (images_begin image_prompts)
       (\<lambda>st0. and_then (images_loop remote API_KEY images_dir image_prompts st0)
          (images_end images_dir))"

text \<open>
  The module from top to bottom, given the directory of the script file: the guard on
  \<open>API_KEY\<close> (\<open>not API_KEY\<close> holds for \<open>None\<close> and for the empty string),
  \<open>mkdir\<close>, \<open>main()\<close>. An exception that nothing catches ends the process.
\<close>

definition images_script ::
  "string option \<Rightarrow> remote \<Rightarrow> path \<Rightarrow> prompt_spec list \<Rightarrow> world \<Rightarrow> exit_status \<times> world" where
  "images_script API_KEY remote here image_prompts w =
     (if API_KEY = None \<or> API_KEY = Some [] then
        (case and_then (print ''Error: GEMINI_API_KEY environment variable not set'')
                (\<lambda>u. and_then
                   (print ''Get your API key from: https://aistudio.google.com/apikey'')
                   (\<lambda>u'. print (''Then run: export GEMINI_API_KEY='' @ [CHR 0x22]
                                  @ ''your-key-here'' @ [CHR 0x22]))) w of
           (Inl e, w1) \<Rightarrow> (Uncaught e, w1)
         | (Inr u, w1) \<Rightarrow> (Exit 1, w1))
      else
        (case and_then (mkdir (path_join here ''images''))
                (\<lambda>u. images_main remote API_KEY (path_join here ''images'') image_prompts) w of
           (Inl e, w1) \<Rightarrow> (Uncaught e, w1)
         | (Inr u, w1) \<Rightarrow> (Exit 0, w1)))"

subsection \<open>\<open>generate-process-images.py\<close>\<close>

text \<open>
  \<open>if previous_image:\<close> holds for every dictionary that \<open>generate_image\<close> returned (it
  has two keys) and fails for \<open>None\<close>.
\<close>

definition process_request :: "string option \<Rightarrow> string \<Rightarrow> inline_data option \<Rightarrow> request" where
  "process_request API_KEY p previous_image =
     \<lparr>url = api_url API_KEY,
      contents =
        (case previous_image of
           Some prev \<Rightarrow>
             [\<lparr>part_text = Some ''Here is the previous frame in our process sequence. Generate the next frame maintaining the same visual style, perspective, and color palette:'',
               inlineData = None\<rparr>,
              \<lparr>part_text = None,
               inlineData = Some \<lparr>mimeType = mimeType prev, data = data prev\<rparr>\<rparr>,
              \<lparr>part_text = Some (''Now generate the next frame:'' @ nl @ nl @ p),
               inlineData = None\<rparr>]
         | None \<Rightarrow> [\<lparr>part_text = Some p, inlineData = None\<rparr>]),
      responseModalities = [''TEXT'', ''IMAGE''],
      timeout = 90\<rparr>"

definition process_generate_image ::
  "remote \<Rightarrow> string option \<Rightarrow> string \<Rightarrow> inline_data option \<Rightarrow> world
     \<Rightarrow> (exn + inline_data) \<times> world" where
  "process_generate_image remote API_KEY p previous_image w =
     call_api remote (process_request API_KEY p previous_image) w"

text \<open>The counters and the image kept for the next request.\<close>

record chain = counters +
  previous_image :: "inline_data option"

definition process_try ::
  "remote \<Rightarrow> string option \<Rightarrow> path \<Rightarrow> prompt_spec \<Rightarrow> inline_data option \<Rightarrow> world
     \<Rightarrow> (exn + inline_data) \<times> world" where
  "process_try remote API_KEY images_dir step prev w =
     (case process_generate_image remote API_KEY (prompt step) prev w of
        (Inl e, w1) \<Rightarrow> (Inl e, w1)
      | (Inr image_data, w1) \<Rightarrow>
          (case save_image images_dir (name step) image_data w1 of
             (Inl e, w2) \<Rightarrow> (Inl e, w2)
           | (Inr filename, w2) \<Rightarrow> (Inr image_data, w2)))"

text \<open>One pass through the body of the loop over \<open>enumerate(process_steps)\<close>.\<close>

definition process_iteration ::
  "remote \<Rightarrow> string option \<Rightarrow> path \<Rightarrow> chain \<Rightarrow> nat \<times> prompt_spec \<Rightarrow> world
     \<Rightarrow> (exn + chain) \<times> world" where
  "process_iteration remote API_KEY images_dir st ix =
     (case ix of (i, step) \<Rightarrow>
        and_then (print (''Generating: '' @ name step @ '' (step '' @ str_nat (i + 1) @ ''/6)...''))
          (\<lambda>u w.
             case process_try remote API_KEY images_dir step (previous_image st) w of
               (Inr image_data, w') \<Rightarrow>
                 (Inr (st\<lparr>successful := successful st + 1,
                           previous_image := Some image_data\<rparr>), sleep 3 w')
             | (Inl e, w') \<Rightarrow>
                 and_then (print (''  Failed: '' @ str_exn e))
                   (\<lambda>u' w''. (Inr (st\<lparr>failed := failed st + 1, previous_image := None\<rparr>), w''))
                   w'))"

fun process_loop ::
  "remote \<Rightarrow> string option \<Rightarrow> path \<Rightarrow> (nat \<times> prompt_spec) list \<Rightarrow> chain \<Rightarrow> world
     \<Rightarrow> (exn + chain) \<times> world" where
  "process_loop remote API_KEY images_dir [] st w = (Inr st, w)"
| "process_loop remote API_KEY images_dir (ix # rest) st w =
     (case process_iteration remote API_KEY images_dir st ix w of
        (Inl e, w') \<Rightarrow> (Inl e, w')
      | (Inr st', w') \<Rightarrow> process_loop remote API_KEY images_dir rest st' w')"

definition process_begin :: "world \<Rightarrow> (exn + chain) \<times> world" where
  "process_begin =
     and_then (print (''Generating process step images for science section flipbook...'' @ nl))
       (\<lambda>u. and_then (print (''Each image will be fed into the next for visual continuity.'' @ nl))
          (\<lambda>u' w. (Inr \<lparr>successful = 0, failed = 0, previous_image = None\<rparr>, w)))"

definition process_end :: "chain \<Rightarrow> world \<Rightarrow> (exn + unit) \<times> world" where
  "process_end st =
     and_then (print (nl @ ''Generation complete!''))
       (\<lambda>u. and_then (print (''  Successful: '' @ str_nat (successful st)))
          (\<lambda>u'. print (''  Failed: '' @ str_nat (failed st))))"

definition process_main ::
  "remote \<Rightarrow> string option \<Rightarrow> path \<Rightarrow> prompt_spec list \<Rightarrow> world \<Rightarrow> (exn + unit) \<times> world" where
  "process_main remote API_KEY images_dir process_steps =
     and_then process_begin
       (\<lambda>st0. and_then (process_loop remote API_KEY images_dir (enumerate 0 process_steps) st0)
          process_end)"

definition process_script ::
  "string option \<Rightarrow> remote \<Rightarrow> path \<Rightarrow> prompt_spec list \<Rightarrow> world \<Rightarrow> exit_status \<times> world" where
  "process_script API_KEY remote here process_steps w =
     (if API_KEY = None \<or> API_KEY = Some [] then
        (case print ''Error: GEMINI_API_KEY environment variable not set'' w of
           (Inl e, w1) \<Rightarrow> (Uncaught e, w1)
         | (Inr u, w1) \<Rightarrow> (Exit 1, w1))
      else
        (case and_then (mkdir (path_join here ''images''))
                (\<lambda>u. process_main remote API_KEY (path_join here ''images'') process_steps) w of
           (Inl e, w1) \<Rightarrow> (Uncaught e, w1)
         | (Inr u, w1) \<Rightarrow> (Exit 0, w1)))"

subsection \<open>\<open>generate-hero.py\<close>\<close>

definition hero_request :: "string option \<Rightarrow> string \<Rightarrow> request" where
  "hero_request API_KEY p =
     \<lparr>url = api_url API_KEY,
      contents = [\<lparr>part_text = Some p, inlineData = None\<rparr>],
      responseModalities = [''TEXT'', ''IMAGE''],
      timeout = 60\<rparr>"

text \<open>
  \<open>generate_image\<close> of the hero script has no \<open>try\<close>: whatever \<open>print\<close>,
  \<open>urlopen\<close>, \<open>b64decode\<close> or \<open>write_bytes\<close> raises leaves the function. A response
  without an image falls out of the loops to the last \<open>print\<close>.
\<close>

definition hero_generate_image ::
  "remote \<Rightarrow> string option \<Rightarrow> path \<Rightarrow> string \<Rightarrow> world \<Rightarrow> (exn + unit) \<times> world" where
  "hero_generate_image remote API_KEY images_dir p =
     and_then (print ''Generating hero background...'')
       (\<lambda>u w.
          case urlopen remote (hero_request API_KEY p) w of
            (HTTPError code reason error_body, w1) \<Rightarrow>
              (Inl (LibraryError (''HTTP Error '' @ str_nat code @ '': '' @ reason)), w1)
          | (Failure m, w1) \<Rightarrow> (Inl (LibraryError m), w1)
          | (Body result, w1) \<Rightarrow>
              (case scan_candidates (get_candidates result) of
                 Some found \<Rightarrow>
                   (let ext = image_ext (mimeType found);
                        filename = path_join images_dir (''hero-bg.'' @ ext)
                    in case b64decode (data found) of
                         Inl e \<Rightarrow> (Inl e, w1)
                       | Inr image_bytes \<Rightarrow>
                           and_then (write_bytes filename image_bytes)
                             (\<lambda>u'. print (''Saved: '' @ str_path filename)) w1)
               | None \<Rightarrow> print ''No image generated'' w1))"

definition hero_script ::
  "string option \<Rightarrow> remote \<Rightarrow> path \<Rightarrow> string \<Rightarrow> world \<Rightarrow> exit_status \<times> world" where
  "hero_script API_KEY remote here p w =
     (case and_then (mkdir (path_join here ''images''))
             (\<lambda>u. hero_generate_image remote API_KEY (path_join here ''images'') p) w of
        (Inl e, w1) \<Rightarrow> (Uncaught e, w1)
      | (Inr u, w1) \<Rightarrow> (Exit 0, w1))"

text \<open>The exit code of the process: an uncaught exception ends it with code 1.\<close>

fun exit_code :: "exit_status \<Rightarrow> nat" where
  "exit_code (Exit n) = n"
| "exit_code (Uncaught e) = 1"

subsection \<open>Observing a run\<close>

text \<open>The requests on a timeline, in the order in which they were sent.\<close>

fun requests_of :: "event list \<Rightarrow> request list" where
  "requests_of [] = []"
| "requests_of (Request r # evs) = r # requests_of evs"
| "requests_of (Sleep n # evs) = requests_of evs"
| "requests_of (WriteFile f # evs) = requests_of evs"
| "requests_of (MkDir d # evs) = requests_of evs"

text \<open>The files written on a timeline, in order.\<close>

fun writes_of :: "event list \<Rightarrow> path list" where
  "writes_of [] = []"
| "writes_of (WriteFile f # evs) = f # writes_of evs"
| "writes_of (Request r # evs) = writes_of evs"
| "writes_of (Sleep n # evs) = writes_of evs"
| "writes_of (MkDir d # evs) = writes_of evs"

text \<open>
  The inline image payloads of a response in reading order: the candidates in order, the
  parts of each candidate in order.
\<close>

definition inline_payloads :: "response \<Rightarrow> inline_data list" where
  "inline_payloads result =
     List.map_filter inlineData (concat (map candidate_parts (get_candidates result)))"

text \<open>The file that \<open>save_image\<close> writes.\<close>

definition saved_path :: "path \<Rightarrow> string \<Rightarrow> inline_data \<Rightarrow> path" where
  "saved_path images_dir nm image_data =
     path_join images_dir (nm @ ''.'' @ image_ext (mimeType image_data))"

text \<open>
  The files written and the lines printed from the world \<open>w\<close> on, up to the later
  world \<open>w'\<close>.
\<close>

definition written_since :: "world \<Rightarrow> world \<Rightarrow> path list" where
  "written_since w w' = drop (length (writes_of (timeline w))) (writes_of (timeline w'))"

definition printed_since :: "world \<Rightarrow> world \<Rightarrow> string list" where
  "printed_since w w' = drop (length (stdout w)) (stdout w')"

text \<open>
  \<open>main\<close> of \<open>generate-images.py\<close> up to the end of its first \<open>k\<close> iterations, and
  what the \<open>try\<close> block of iteration \<open>k\<close> comes to in the run: the image, once it is
  generated and saved, or the exception; nothing when the run does not get to that
  \<open>try\<close> block.
\<close>

definition images_after ::
  "remote \<Rightarrow> string option \<Rightarrow> path \<Rightarrow> prompt_spec list \<Rightarrow> world \<Rightarrow> nat
     \<Rightarrow> (exn + counters) \<times> world" where
  "images_after remote API_KEY images_dir image_prompts w k =
     and_then (images_begin image_prompts)
       (images_loop remote API_KEY images_dir (take k image_prompts)) w"

definition images_outcome ::
  "remote \<Rightarrow> string option \<Rightarrow> path \<Rightarrow> prompt_spec list \<Rightarrow> world \<Rightarrow> nat
     \<Rightarrow> (exn + inline_data) option" where
  "images_outcome remote API_KEY images_dir image_prompts w k =
     (case images_after remote API_KEY images_dir image_prompts w k of
        (Inl e, w') \<Rightarrow> None
      | (Inr st, w') \<Rightarrow>
          (case print (''Generating: '' @ name (image_prompts ! k) @ ''...'') w' of
             (Inl e, w'') \<Rightarrow> None
           | (Inr u, w'') \<Rightarrow>
               Some (fst (images_try remote API_KEY images_dir (image_prompts ! k) w''))))"

text \<open>The same for \<open>generate-process-images.py\<close>.\<close>

definition process_after ::
  "remote \<Rightarrow> string option \<Rightarrow> path \<Rightarrow> prompt_spec list \<Rightarrow> world \<Rightarrow> nat
     \<Rightarrow> (exn + chain) \<times> world" where
  "process_after remote API_KEY images_dir process_steps w k =
     and_then process_begin
       (process_loop remote API_KEY images_dir (take k (enumerate 0 process_steps))) w"

definition process_outcome ::
  "remote \<Rightarrow> string option \<Rightarrow> path \<Rightarrow> prompt_spec list \<Rightarrow> world \<Rightarrow> nat
     \<Rightarrow> (exn + inline_data) option" where
  "process_outcome remote API_KEY images_dir process_steps w k =
     (case process_after remote API_KEY images_dir process_steps w k of
        (Inl e, w') \<Rightarrow> None
      | (Inr st, w') \<Rightarrow>
          (case print (''Generating: '' @ name (process_steps ! k) @ '' (step ''
                         @ str_nat (k + 1) @ ''/6)...'') w' of
             (Inl e, w'') \<Rightarrow> None
           | (Inr u, w'') \<Rightarrow>
               Some (fst (process_try remote API_KEY images_dir (process_steps ! k)
                            (previous_image st) w''))))"

text \<open>
  The previous image that step \<open>k\<close> is to be given: none at the first step and after a
  step whose \<open>try\<close> block raised, the image of the step before otherwise.
\<close>

definition process_context ::
  "remote \<Rightarrow> string option \<Rightarrow> path \<Rightarrow> prompt_spec list \<Rightarrow> world \<Rightarrow> nat \<Rightarrow> inline_data option" where
  "process_context remote API_KEY images_dir process_steps w k =
     (case k of
        0 \<Rightarrow> None
      | Suc j \<Rightarrow>
          (case process_outcome remote API_KEY images_dir process_steps w j of
             Some (Inr im) \<Rightarrow> Some im
           | Some (Inl e) \<Rightarrow> None
           | None \<Rightarrow> None))"

text \<open>
  A world with nothing in it whose standard output has the ASCII characters only, and a
  few values to run the scripts on.
\<close>

definition ascii_only :: "char \<Rightarrow> bool" where
  "ascii_only c = False"

definition world0 :: world where
  "world0 =
     \<lparr>files = Map.empty, dirs = {}, unwritable = {}, console = ascii_only, stdout = [],
      timeline = []\<rparr>"

text \<open>The same world with a standard output that has every character.\<close>

definition every_char :: "char \<Rightarrow> bool" where
  "every_char c = True"

definition world1 :: world where
  "world1 = world0\<lparr>console := every_char\<rparr>"

definition always :: "http_outcome \<Rightarrow> remote" where
  "always outcome history req = outcome"

definition sample_image :: inline_data where
  "sample_image = \<lparr>mimeType = ''image/png'', data = ''aGk=''\<rparr>"

definition image_response :: response where
  "image_response =
     \<lparr>error = None,
      candidates = Some [\<lparr>content = Some \<lparr>parts = Some
        [\<lparr>part_text = Some ''Here is the picture.'', inlineData = None\<rparr>,
         \<lparr>part_text = None, inlineData = Some sample_image\<rparr>]\<rparr>\<rparr>]\<rparr>"

definition text_response :: response where
  "text_response =
     \<lparr>error = None,
      candidates = Some [\<lparr>content = Some \<lparr>parts = Some
        [\<lparr>part_text = Some ''I cannot draw this.'', inlineData = None\<rparr>]\<rparr>\<rparr>]\<rparr>"

definition error_response :: response where
  "error_response = image_response\<lparr>error := Some \<lparr>message = Some ''quota exceeded''\<rparr>\<rparr>"

text \<open>An error whose message has a character outside ASCII.\<close>

definition accented_error :: response where
  "accented_error =
     \<lparr>error = Some \<lparr>message = Some (''quota d'' @ [CHR 0xE9] @ ''pass'' @ [CHR 0xE9])\<rparr>,
      candidates = None\<rparr>"

definition two_prompts :: "prompt_spec list" where
  "two_prompts =
     [\<lparr>name = ''plant'', prompt = ''a plant''\<rparr>, \<lparr>name = ''barrel'', prompt = ''a barrel''\<rparr>]"

text \<open>A service that refuses the first request and answers every later one.\<close>

definition fail_first :: remote where
  "fail_first history req =
     (if requests_of history = [] then HTTPError 429 ''Too Many Requests'' ''slow down''
      else Body image_response)"

section \<open>Properties\<close>

subsection \<open>Reading the response\<close>

lemma fst_call_api_Body:
  "remote (timeline w) req = Body result \<Longrightarrow> fst (call_api remote req w) = read_result result"
  by (simp add: call_api_def urlopen_def)

lemma map_filter_app:
  "List.map_filter f (xs @ ys) = List.map_filter f xs @ List.map_filter f ys"
  by (simp add: List.map_filter_def)

lemma scan_parts_payloads:
  "scan_parts ps = (case List.map_filter inlineData ps of [] \<Rightarrow> None | d # ds \<Rightarrow> Some d)"
  by (induction ps) (auto simp: List.map_filter_simps split: option.splits list.splits)

lemma scan_candidates_payloads:
  "scan_candidates cs =
     (case List.map_filter inlineData (concat (map candidate_parts cs)) of
        [] \<Rightarrow> None
      | d # ds \<Rightarrow> Some d)"
  by (induction cs)
    (auto simp: scan_parts_payloads map_filter_app split: option.splits list.splits)

lemma read_result_no_error:
  "error result = None \<Longrightarrow>
     read_result result =
       (case inline_payloads result of
          [] \<Rightarrow> Inl (Exception ''No image in response'')
        | d # ds \<Rightarrow> Inr d)"
  by (simp add: read_result_def inline_payloads_def scan_candidates_payloads split: list.splits)

lemma read_result_error:
  "error result = Some e \<Longrightarrow>
     read_result result =
       Inl (Exception (case message e of None \<Rightarrow> ''Unknown error'' | Some m \<Rightarrow> m))"
  by (simp add: read_result_def)

text \<open>
  C9: in both batch scripts, a decoded body that has the key \<open>'error'\<close> makes
  \<open>generate_image\<close> raise an exception with the error's message (\<open>'Unknown error'\<close>
  when the error object has none), whatever else the body holds, an inline image
  included.
\<close>

theorem error_key_precedes_image:
  assumes "error result = Some e"
  shows "(remote (timeline w) (images_request API_KEY p) = Body result \<longrightarrow>
            fst (images_generate_image remote API_KEY p w) =
              Inl (Exception (case message e of None \<Rightarrow> ''Unknown error'' | Some m \<Rightarrow> m)))
       \<and> (remote (timeline w) (process_request API_KEY p prev) = Body result \<longrightarrow>
            fst (process_generate_image remote API_KEY p prev w) =
              Inl (Exception (case message e of None \<Rightarrow> ''Unknown error'' | Some m \<Rightarrow> m)))"
  using assms
  by (simp add: images_generate_image_def process_generate_image_def fst_call_api_Body
        read_result_error)

theorem error_key_precedes_image_witness:
  "error error_response = Some \<lparr>message = Some ''quota exceeded''\<rparr>
   \<and> inline_payloads error_response = [sample_image]
   \<and> fst (images_generate_image (always (Body error_response)) (Some ''k'') ''a plant'' world0)
       = Inl (Exception ''quota exceeded'')
   \<and> fst (process_generate_image (always (Body error_response)) (Some ''k'') ''a plant'' None world0)
       = Inl (Exception ''quota exceeded'')"
  using error_key_precedes_image [where result = error_response
      and e = "\<lparr>message = Some ''quota exceeded''\<rparr>"
      and remote = "always (Body error_response)" and w = world0
      and API_KEY = "Some ''k''" and p = "''a plant''" and prev = None]
  by (simp add: error_response_def image_response_def always_def inline_payloads_def
        get_candidates_def candidate_parts_def List.map_filter_def)

text \<open>
  C7, as stated, fails: a body with the key \<open>'error'\<close> and an inline image makes the
  batch scripts' \<open>generate_image\<close> raise instead of returning the image, and the hero
  script's \<open>generate_image\<close> returns normally on a body without an image.
\<close>

theorem payload_behind_error_key_counterexample:
  "inline_payloads error_response = [sample_image]
   \<and> fst (images_generate_image (always (Body error_response)) (Some ''k'') ''a plant'' world0)
       = Inl (Exception ''quota exceeded'')
   \<and> fst (images_generate_image (always (Body error_response)) (Some ''k'') ''a plant'' world0)
       \<noteq> Inr sample_image
   \<and> inline_payloads text_response = []
   \<and> fst (hero_generate_image (always (Body text_response)) (Some ''k'') (PurePosixPath ''site/images'')
            ''a hero'' world0) = Inr ()"
  by (simp add: error_response_def image_response_def text_response_def always_def
        inline_payloads_def get_candidates_def candidate_parts_def List.map_filter_def
        images_generate_image_def call_api_def urlopen_def read_result_def
        hero_generate_image_def and_then_def print_def printable_def)

text \<open>
  C7, amended: in both batch scripts, for a decoded body without the key \<open>'error'\<close>,
  \<open>generate_image\<close> raises \<open>Exception('No image in response')\<close> when no part of any
  candidate has inline data, and otherwise returns the first inline payload, candidates
  read in order and the parts of each candidate in order.
\<close>

theorem first_payload_without_error_key:
  assumes "error result = None"
  shows "(remote (timeline w) (images_request API_KEY p) = Body result \<longrightarrow>
            fst (images_generate_image remote API_KEY p w) =
              (case inline_payloads result of
                 [] \<Rightarrow> Inl (Exception ''No image in response'')
               | d # ds \<Rightarrow> Inr d))
       \<and> (remote (timeline w) (process_request API_KEY p prev) = Body result \<longrightarrow>
            fst (process_generate_image remote API_KEY p prev w) =
              (case inline_payloads result of
                 [] \<Rightarrow> Inl (Exception ''No image in response'')
               | d # ds \<Rightarrow> Inr d))"
  using assms
  by (simp add: images_generate_image_def process_generate_image_def fst_call_api_Body
        read_result_no_error)

theorem first_payload_without_error_key_witness:
  "error image_response = None
   \<and> inline_payloads image_response = [sample_image]
   \<and> fst (images_generate_image (always (Body image_response)) (Some ''k'') ''a plant'' world0)
       = Inr sample_image
   \<and> fst (process_generate_image (always (Body image_response)) (Some ''k'') ''a plant'' None world0)
       = Inr sample_image"
  using first_payload_without_error_key [where result = image_response
      and remote = "always (Body image_response)" and w = world0
      and API_KEY = "Some ''k''" and p = "''a plant''" and prev = None]
  by (simp add: image_response_def always_def inline_payloads_def
        get_candidates_def candidate_parts_def List.map_filter_def)

subsection \<open>Printing\<close>

lemma print_ok:
  "printable w s \<Longrightarrow> print s w = (Inr (), w\<lparr>stdout := stdout w @ [s]\<rparr>)"
  by (simp add: print_def)

lemma print_refused:
  "\<not> printable w s \<Longrightarrow> print s w = (Inl (LibraryError ''codec cannot encode character''), w)"
  by (simp add: print_def)

lemma printable_append [simp]: "printable w (a @ b) \<longleftrightarrow> printable w a \<and> printable w b"
  by (simp add: printable_def)

lemma printable_ascii: "list_all (\<lambda>c. of_char c < (128::nat)) s \<Longrightarrow> printable w s"
  by (induction s) (simp_all add: printable_def)

lemma printable_console: "console w' = console w \<Longrightarrow> printable w' s = printable w s"
  by (simp add: printable_def)

lemma printable_total: "\<forall>c. console w c \<Longrightarrow> printable w s"
  by (induction s) (simp_all add: printable_def)

lemma str_nat_ascii: "list_all (\<lambda>c. of_char c < (128::nat)) (str_nat n)"
proof (induction n rule: str_nat.induct)
  case (1 n)
  have d: "of_char (char_of (48 + k)) < (128::nat)" if "k < 10" for k :: nat
    using that by simp
  show ?case
  proof (cases "n < 10")
    case True
    then show ?thesis by (subst str_nat.simps) (simp add: d)
  next
    case False
    with 1 have "list_all (\<lambda>c. of_char c < (128::nat)) (str_nat (n div 10))" by simp
    with False show ?thesis by (subst str_nat.simps) (simp add: d)
  qed
qed

lemma printable_str_nat [simp]: "printable w (str_nat n)"
  by (rule printable_ascii) (rule str_nat_ascii)

lemma print_effect:
  "timeline (snd (print s w)) = timeline w"
  "files (snd (print s w)) = files w"
  "dirs (snd (print s w)) = dirs w"
  "unwritable (snd (print s w)) = unwritable w"
  "console (snd (print s w)) = console w"
  "stdout (snd (print s w)) = stdout w @ (if printable w s then [s] else [])"
  by (simp_all add: print_def)

subsection \<open>The guard on the API key\<close>

text \<open>
  C5: with the environment variable absent, both batch scripts end with exit code 1
  having sent no request and created no file and no directory: the timeline, the files
  and the directories are those of the start.
\<close>

theorem missing_api_key_stops_at_once:
  "fst (images_script None remote here image_prompts w) = Exit 1
   \<and> timeline (snd (images_script None remote here image_prompts w)) = timeline w
   \<and> files (snd (images_script None remote here image_prompts w)) = files w
   \<and> dirs (snd (images_script None remote here image_prompts w)) = dirs w
   \<and> fst (process_script None remote here process_steps w) = Exit 1
   \<and> timeline (snd (process_script None remote here process_steps w)) = timeline w
   \<and> files (snd (process_script None remote here process_steps w)) = files w
   \<and> dirs (snd (process_script None remote here process_steps w)) = dirs w"
  by (simp add: images_script_def process_script_def and_then_def print_def printable_def)

subsection \<open>Paths\<close>

lemma split_slash_plain: "CHR ''/'' \<notin> set f \<Longrightarrow> split_slash f = [f]"
  by (induction f) auto

lemma posix_root_plain: "CHR ''/'' \<notin> set f \<Longrightarrow> posix_root f = []"
  by (cases f) (auto simp: posix_root_def take_Suc_Cons split: list.splits)

lemma path_join_plain:
  assumes "CHR ''/'' \<notin> set f" and "f \<noteq> []" and "f \<noteq> ''.''"
  shows "path_join d f = \<lparr>anchor = anchor d, segments = segments d @ [f]\<rparr>"
  using assms by (simp add: path_join_def PurePosixPath_def split_slash_plain posix_root_plain)

subsection \<open>Saving an image\<close>

lemma startswith_iff: "startswith s p \<longleftrightarrow> (\<exists>post. s = p @ post)"
  by (induction s p rule: startswith.induct) auto

lemma str_in_iff: "str_in needle s \<longleftrightarrow> (\<exists>pre post. s = pre @ needle @ post)"
proof (induction s)
  case Nil
  then show ?case by auto
next
  case (Cons c cs)
  show ?case
  proof
    assume "str_in needle (c # cs)"
    then consider "startswith (c # cs) needle" | "str_in needle cs" by auto
    then show "\<exists>pre post. c # cs = pre @ needle @ post"
    proof cases
      case 1
      then obtain post where "c # cs = needle @ post" by (auto simp: startswith_iff)
      then have "c # cs = [] @ needle @ post" by simp
      then show ?thesis by blast
    next
      case 2
      with Cons.IH obtain pre post where "cs = pre @ needle @ post" by auto
      then have "c # cs = (c # pre) @ needle @ post" by simp
      then show ?thesis by blast
    qed
  next
    assume "\<exists>pre post. c # cs = pre @ needle @ post"
    then obtain pre post where eq: "c # cs = pre @ needle @ post" by auto
    show "str_in needle (c # cs)"
    proof (cases pre)
      case Nil
      with eq have "startswith (c # cs) needle" by (simp add: startswith_iff)
      then show ?thesis by simp
    next
      case (Cons a pre')
      with eq have "cs = pre' @ needle @ post" by simp
      with Cons.IH show ?thesis by auto
    qed
  qed
qed

lemma image_ext_png: "image_ext ''image/png'' = ''png''"
  by (simp add: image_ext_def)

lemma image_ext_jpeg: "image_ext ''image/jpeg'' = ''jpg''"
  by (simp add: image_ext_def)

lemma image_ext_other: "\<not> (\<exists>pre post. m = pre @ ''png'' @ post) \<Longrightarrow> image_ext m = ''jpg''"
  by (simp add: image_ext_def str_in_iff)

lemma image_ext_cases: "image_ext m = ''png'' \<or> image_ext m = ''jpg''"
  by (simp add: image_ext_def)


lemma saved_path_cases:
  "saved_path d n im = path_join d (n @ ''.png'') \<or> saved_path d n im = path_join d (n @ ''.jpg'')"
  using image_ext_cases [of "mimeType im"] by (auto simp: saved_path_def)

lemma path_join_plain_png:
  "CHR ''/'' \<notin> set n \<Longrightarrow>
     path_join d (n @ ''.png'') = \<lparr>anchor = anchor d, segments = segments d @ [n @ ''.png'']\<rparr>"
  by (rule path_join_plain) auto

lemma path_join_plain_jpg:
  "CHR ''/'' \<notin> set n \<Longrightarrow>
     path_join d (n @ ''.jpg'') = \<lparr>anchor = anchor d, segments = segments d @ [n @ ''.jpg'']\<rparr>"
  by (rule path_join_plain) auto

lemma saved_path_inj:
  assumes "CHR ''/'' \<notin> set n" and "CHR ''/'' \<notin> set n'"
    and "saved_path d n im = saved_path d n' im'"
  shows "n = n'"
  using assms saved_path_cases [of d n im] saved_path_cases [of d n' im']
  by (auto simp: path_join_plain_png path_join_plain_jpg)

lemma save_image_cases:
  "save_image images_dir nm im w =
     (case b64decode (data im) of
        Inl e \<Rightarrow> (Inl e, w)
      | Inr bs \<Rightarrow>
          (if saved_path images_dir nm im \<in> unwritable w then
             (Inl (LibraryError (''[Errno 13] Permission denied: ''
                     @ str_path (saved_path images_dir nm im))), w)
           else if printable w (''  Saved: '' @ str_path (saved_path images_dir nm im)) then
             (Inr (saved_path images_dir nm im),
              w\<lparr>files := (files w)(saved_path images_dir nm im \<mapsto> bs),
                timeline := timeline w @ [WriteFile (saved_path images_dir nm im)],
                stdout := stdout w @ [''  Saved: '' @ str_path (saved_path images_dir nm im)]\<rparr>)
           else
             (Inl (LibraryError ''codec cannot encode character''),
              w\<lparr>files := (files w)(saved_path images_dir nm im \<mapsto> bs),
                timeline := timeline w @ [WriteFile (saved_path images_dir nm im)]\<rparr>)))"
  by (simp add: save_image_def saved_path_def write_bytes_def and_then_def print_def
        printable_def Let_def split: sum.splits)

lemma writes_of_append [simp]: "writes_of (xs @ ys) = writes_of xs @ writes_of ys"
  by (induction xs rule: writes_of.induct) simp_all

lemma requests_of_append [simp]: "requests_of (xs @ ys) = requests_of xs @ requests_of ys"
  by (induction xs rule: requests_of.induct) simp_all

text \<open>
  C6: when the payload decodes and the file can be written, \<open>save_image\<close> writes the
  decoded bytes to one file, \<open>images_dir / (name + '.' + ext)\<close>, with \<open>ext\<close> the
  extension \<open>png\<close> for the mime type \<open>image/png\<close>, \<open>jpg\<close> for \<open>image/jpeg\<close> and
  \<open>jpg\<close> for every mime type in which \<open>png\<close> does not occur, and returns that path
  when the line that names it can be printed. For a name without a slash that file is the
  component \<open>name.ext\<close> under the components of \<open>images_dir\<close>.
\<close>

theorem save_image_extension:
  assumes "b64decode (data image_data) = Inr bs"
    and "saved_path images_dir nm image_data \<notin> unwritable w"
  shows "files (snd (save_image images_dir nm image_data w)) (saved_path images_dir nm image_data)
           = Some bs
       \<and> written_since w (snd (save_image images_dir nm image_data w))
           = [saved_path images_dir nm image_data]
       \<and> (printable w (''  Saved: '' @ str_path (saved_path images_dir nm image_data)) \<longrightarrow>
            fst (save_image images_dir nm image_data w) = Inr (saved_path images_dir nm image_data))
       \<and> (mimeType image_data = ''image/png'' \<longrightarrow>
            saved_path images_dir nm image_data = path_join images_dir (nm @ ''.png''))
       \<and> (mimeType image_data = ''image/jpeg'' \<longrightarrow>
            saved_path images_dir nm image_data = path_join images_dir (nm @ ''.jpg''))
       \<and> (\<not> (\<exists>pre post. mimeType image_data = pre @ ''png'' @ post) \<longrightarrow>
            saved_path images_dir nm image_data = path_join images_dir (nm @ ''.jpg''))
       \<and> (CHR ''/'' \<notin> set nm \<longrightarrow>
            path_join images_dir (nm @ ''.png'')
              = \<lparr>anchor = anchor images_dir, segments = segments images_dir @ [nm @ ''.png'']\<rparr>
          \<and> path_join images_dir (nm @ ''.jpg'')
              = \<lparr>anchor = anchor images_dir, segments = segments images_dir @ [nm @ ''.jpg'']\<rparr>)"
proof -
  have "files (snd (save_image images_dir nm image_data w)) (saved_path images_dir nm image_data)
           = Some bs"
    using assms by (simp add: save_image_cases)
  moreover have "written_since w (snd (save_image images_dir nm image_data w))
           = [saved_path images_dir nm image_data]"
    using assms by (simp add: save_image_cases written_since_def)
  moreover have "printable w (''  Saved: '' @ str_path (saved_path images_dir nm image_data)) \<longrightarrow>
            fst (save_image images_dir nm image_data w) = Inr (saved_path images_dir nm image_data)"
    using assms by (simp add: save_image_cases)
  moreover have "mimeType image_data = ''image/png'' \<longrightarrow>
            saved_path images_dir nm image_data = path_join images_dir (nm @ ''.png'')"
    by (simp add: saved_path_def image_ext_png)
  moreover have "mimeType image_data = ''image/jpeg'' \<longrightarrow>
            saved_path images_dir nm image_data = path_join images_dir (nm @ ''.jpg'')"
    by (simp add: saved_path_def image_ext_jpeg)
  moreover have "\<not> (\<exists>pre post. mimeType image_data = pre @ ''png'' @ post) \<longrightarrow>
            saved_path images_dir nm image_data = path_join images_dir (nm @ ''.jpg'')"
    using image_ext_other [of "mimeType image_data"] by (simp add: saved_path_def)
  moreover have "CHR ''/'' \<notin> set nm \<longrightarrow>
            path_join images_dir (nm @ ''.png'')
              = \<lparr>anchor = anchor images_dir, segments = segments images_dir @ [nm @ ''.png'']\<rparr>
          \<and> path_join images_dir (nm @ ''.jpg'')
              = \<lparr>anchor = anchor images_dir, segments = segments images_dir @ [nm @ ''.jpg'']\<rparr>"
    by (simp add: path_join_plain_png path_join_plain_jpg)
  ultimately show ?thesis by blast
qed

theorem save_image_extension_witness:
  "b64decode (data sample_image) = Inr [104, 105]
   \<and> saved_path (PurePosixPath ''site/images'') ''plant'' sample_image
       = \<lparr>anchor = [], segments = [''site'', ''images'', ''plant.png'']\<rparr>
   \<and> files (snd (save_image (PurePosixPath ''site/images'') ''plant'' sample_image world0))
        \<lparr>anchor = [], segments = [''site'', ''images'', ''plant.png'']\<rparr> = Some [104, 105]
   \<and> fst (save_image (PurePosixPath ''site/images'') ''plant'' sample_image world0)
       = Inr \<lparr>anchor = [], segments = [''site'', ''images'', ''plant.png'']\<rparr>
   \<and> saved_path (PurePosixPath ''site/images'') ''/tmp/x'' sample_image
       = \<lparr>anchor = ''/'', segments = [''tmp'', ''x.png'']\<rparr>
   \<and> files (snd (save_image (PurePosixPath ''site/images'') ''/tmp/x'' sample_image world0))
        \<lparr>anchor = ''/'', segments = [''tmp'', ''x.png'']\<rparr> = Some [104, 105]"
proof -
  have d: "b64decode (data sample_image) = Inr [104, 105]" by code_simp
  have p: "saved_path (PurePosixPath ''site/images'') ''plant'' sample_image
       = \<lparr>anchor = [], segments = [''site'', ''images'', ''plant.png'']\<rparr>"
    by code_simp
  have q: "saved_path (PurePosixPath ''site/images'') ''/tmp/x'' sample_image
       = \<lparr>anchor = ''/'', segments = [''tmp'', ''x.png'']\<rparr>"
    by code_simp
  have u: "saved_path (PurePosixPath ''site/images'') ''plant'' sample_image \<notin> unwritable world0"
    and v: "saved_path (PurePosixPath ''site/images'') ''/tmp/x'' sample_image \<notin> unwritable world0"
    by (simp_all add: world0_def)
  have pr: "printable world0
              (''  Saved: '' @ str_path (saved_path (PurePosixPath ''site/images'') ''plant'' sample_image))"
    by code_simp
  from save_image_extension [OF d u] save_image_extension [OF d v] d p q pr
  show ?thesis by simp
qed

subsection \<open>Base64: decoding what was encoded\<close>

lemma byte_eqI:
  fixes x y :: byte
  assumes "bit x 0 = bit y 0" "bit x 1 = bit y 1" "bit x 2 = bit y 2" "bit x 3 = bit y 3"
    "bit x 4 = bit y 4" "bit x 5 = bit y 5" "bit x 6 = bit y 6" "bit x 7 = bit y 7"
  shows "x = y"
proof (rule bit_word_eqI)
  fix n :: nat
  assume "n < LENGTH(8)"
  then have "n \<in> {0, 1, 2, 3, 4, 5, 6, 7}"
    by auto
  with assms show "bit x n = bit y n" by auto
qed

lemma byte_bit_high: "8 \<le> n \<Longrightarrow> \<not> bit (a::byte) n"
  using bit_imp_le_length [of a n] by auto

lemmas byte_bits = bit_simps byte_bit_high

text \<open>The four sextets of three bytes are sextets.\<close>

lemma sextet1: "drop_bit 2 (a::byte) AND 63 = drop_bit 2 a"
  by (rule byte_eqI) (simp_all add: byte_bits)

lemma sextet2: "(push_bit 4 (a AND 3) OR drop_bit 4 b) AND 63 = push_bit 4 (a AND 3) OR drop_bit 4 (b::byte)"
  by (rule byte_eqI) (simp_all add: byte_bits)

lemma sextet3: "(push_bit 2 (b AND 15) OR drop_bit 6 c) AND 63 = push_bit 2 (b AND 15) OR drop_bit 6 (c::byte)"
  by (rule byte_eqI) (simp_all add: byte_bits)

lemma sextet4: "(c AND 63) AND 63 = c AND (63::byte)"
  by (rule byte_eqI) (simp_all add: byte_bits)

lemma sextet2_last: "push_bit 4 (a AND 3) AND 63 = push_bit 4 ((a::byte) AND 3)"
  by (rule byte_eqI) (simp_all add: byte_bits)

lemma sextet3_last: "push_bit 2 (b AND 15) AND 63 = push_bit 2 ((b::byte) AND 15)"
  by (rule byte_eqI) (simp_all add: byte_bits)

text \<open>The decoder's three bytes from the four sextets are the bytes encoded.\<close>

lemma byte1: "push_bit 2 (drop_bit 2 a) OR drop_bit 4 (push_bit 4 (a AND 3) OR drop_bit 4 b) = (a::byte)"
  by (rule byte_eqI) (simp_all add: byte_bits)

lemma byte2:
  "push_bit 4 ((push_bit 4 (a AND 3) OR drop_bit 4 b) AND 15)
     OR drop_bit 2 (push_bit 2 (b AND 15) OR drop_bit 6 c) = (b::byte)"
  by (rule byte_eqI) (simp_all add: byte_bits)

lemma byte3: "push_bit 6 ((push_bit 2 (b AND 15) OR drop_bit 6 c) AND 3) OR (c AND 63) = (c::byte)"
  by (rule byte_eqI) (simp_all add: byte_bits)

lemma byte1_last: "push_bit 2 (drop_bit 2 a) OR drop_bit 4 (push_bit 4 (a AND 3)) = (a::byte)"
  by (rule byte_eqI) (simp_all add: byte_bits)

lemma byte2_last:
  "push_bit 4 ((push_bit 4 (a AND 3) OR drop_bit 4 b) AND 15) OR drop_bit 2 (push_bit 2 (b AND 15))
     = (b::byte)"
  by (rule byte_eqI) (simp_all add: byte_bits)

text \<open>The alphabet.\<close>

lemma distinct_b64_alphabet: "distinct b64_alphabet"
  by (simp add: b64_alphabet_def)

lemma length_b64_alphabet: "length b64_alphabet = 64"
  by (simp add: b64_alphabet_def)

lemma pad_not_in_alphabet: "CHR ''='' \<notin> set b64_alphabet"
  by (simp add: b64_alphabet_def)

lemma b64_alphabet_ascii: "list_all (\<lambda>c. of_char c < (128::nat)) b64_alphabet"
  by (simp add: b64_alphabet_def)

lemma index_of_nth: "distinct xs \<Longrightarrow> i < length xs \<Longrightarrow> index_of xs (xs ! i) = Some i"
proof (induction xs arbitrary: i)
  case Nil
  then show ?case by simp
next
  case (Cons x xs)
  show ?case
  proof (cases i)
    case 0
    then show ?thesis by simp
  next
    case (Suc j)
    with Cons.prems have "xs ! j \<in> set xs" and "x \<notin> set xs" by auto
    then have "x \<noteq> xs ! j" by auto
    with Cons Suc show ?thesis by simp
  qed
qed

lemma sextet_index: "unat ((v::byte) AND 63) < 64"
proof -
  have "v AND 63 \<le> 63" by (rule word_and_le1)
  then show ?thesis by (simp add: word_le_nat_alt)
qed

lemma a2b_b2a: "table_a2b_base64 (table_b2a_base64 v) = Some (v AND 63)"
  unfolding table_a2b_base64_def table_b2a_base64_def
  by (simp add: index_of_nth distinct_b64_alphabet length_b64_alphabet sextet_index)

lemma b2a_in_alphabet: "table_b2a_base64 v \<in> set b64_alphabet"
  unfolding table_b2a_base64_def
  by (rule nth_mem) (simp add: length_b64_alphabet sextet_index)

lemma b2a_not_pad: "table_b2a_base64 v \<noteq> CHR ''=''"
  using b2a_in_alphabet [of v] pad_not_in_alphabet by auto

lemma b2a_ascii: "of_char (table_b2a_base64 v) < (128::nat)"
  using b2a_in_alphabet [of v] b64_alphabet_ascii by (auto simp: list_all_iff)

text \<open>One data character in each position of a quad.\<close>

lemma a2b_loop_data:
  "a2b_loop (table_b2a_base64 v # rest) quad_pos leftchar pads bin =
     (if quad_pos = 0 then a2b_loop rest 1 (v AND 63) 0 bin
      else if quad_pos = 1 then
        a2b_loop rest 2 ((v AND 63) AND 15) 0 (bin @ [push_bit 2 leftchar OR drop_bit 4 (v AND 63)])
      else if quad_pos = 2 then
        a2b_loop rest 3 ((v AND 63) AND 3) 0 (bin @ [push_bit 4 leftchar OR drop_bit 2 (v AND 63)])
      else a2b_loop rest 0 0 0 (bin @ [push_bit 6 leftchar OR (v AND 63)]))"
  by (simp only: a2b_loop.simps a2b_b2a b2a_not_pad if_False option.case)

lemma a2b_loop_quad:
  assumes "v1 AND 63 = v1" "v2 AND 63 = v2" "v3 AND 63 = v3" "v4 AND 63 = v4"
  shows "a2b_loop (table_b2a_base64 v1 # table_b2a_base64 v2 # table_b2a_base64 v3
                     # table_b2a_base64 v4 # rest) 0 leftchar pads bin =
         a2b_loop rest 0 0 0
           (bin @ [push_bit 2 v1 OR drop_bit 4 v2, push_bit 4 (v2 AND 15) OR drop_bit 2 v3,
                   push_bit 6 (v3 AND 3) OR v4])"
  by (simp only: a2b_loop_data assms) simp

lemma a2b_loop_pair_padded:
  assumes "v1 AND 63 = v1" "v2 AND 63 = v2"
  shows "a2b_loop [table_b2a_base64 v1, table_b2a_base64 v2, CHR ''='', CHR ''=''] 0 leftchar pads bin =
         Inr (bin @ [push_bit 2 v1 OR drop_bit 4 v2])"
  by (simp only: a2b_loop_data assms) simp

lemma a2b_loop_triple_padded:
  assumes "v1 AND 63 = v1" "v2 AND 63 = v2" "v3 AND 63 = v3"
  shows "a2b_loop [table_b2a_base64 v1, table_b2a_base64 v2, table_b2a_base64 v3, CHR ''=''] 0
           leftchar pads bin =
         Inr (bin @ [push_bit 2 v1 OR drop_bit 4 v2, push_bit 4 (v2 AND 15) OR drop_bit 2 v3])"
  by (simp only: a2b_loop_data assms) simp

lemma a2b_loop_b64encode:
  "a2b_loop (b64encode bs) 0 leftchar pads bin = Inr (bin @ bs)"
proof (induction bs arbitrary: leftchar pads bin rule: b64encode.induct)
  case 1
  show ?case by simp
next
  case (2 a)
  have "a2b_loop (b64encode [a]) 0 leftchar pads bin =
          Inr (bin @ [push_bit 2 (drop_bit 2 a) OR drop_bit 4 (push_bit 4 (a AND 3))])"
    unfolding b64encode.simps by (rule a2b_loop_pair_padded [OF sextet1 sextet2_last])
  then show ?case by (simp only: byte1_last)
next
  case (3 a b)
  have "a2b_loop (b64encode [a, b]) 0 leftchar pads bin =
          Inr (bin @ [push_bit 2 (drop_bit 2 a) OR drop_bit 4 (push_bit 4 (a AND 3) OR drop_bit 4 b),
                      push_bit 4 ((push_bit 4 (a AND 3) OR drop_bit 4 b) AND 15)
                        OR drop_bit 2 (push_bit 2 (b AND 15))])"
    unfolding b64encode.simps by (rule a2b_loop_triple_padded [OF sextet1 sextet2 sextet3_last])
  then show ?case by (simp only: byte1 byte2_last)
next
  case (4 a b c rest)
  have "a2b_loop (b64encode (a # b # c # rest)) 0 leftchar pads bin =
          a2b_loop (b64encode rest) 0 0 0
            (bin @ [push_bit 2 (drop_bit 2 a) OR drop_bit 4 (push_bit 4 (a AND 3) OR drop_bit 4 b),
                    push_bit 4 ((push_bit 4 (a AND 3) OR drop_bit 4 b) AND 15)
                      OR drop_bit 2 (push_bit 2 (b AND 15) OR drop_bit 6 c),
                    push_bit 6 ((push_bit 2 (b AND 15) OR drop_bit 6 c) AND 3) OR (c AND 63)])"
    unfolding b64encode.simps append_Cons append_Nil
    by (rule a2b_loop_quad [OF sextet1 sextet2 sextet3 sextet4])
  also have "\<dots> = a2b_loop (b64encode rest) 0 0 0 (bin @ [a, b, c])"
    by (simp only: byte1 byte2 byte3)
  also have "\<dots> = Inr ((bin @ [a, b, c]) @ rest)" by (rule "4.IH")
  finally show ?case by simp
qed

lemma b64encode_ascii: "list_all (\<lambda>c. of_char c < (128::nat)) (b64encode bs)"
  by (induction bs rule: b64encode.induct) (simp_all add: b2a_ascii)

lemma b64decode_b64encode: "b64decode (b64encode bs) = Inr bs"
  using a2b_loop_b64encode [of bs 0 0 "[]"]
  by (simp add: b64decode_def a2b_base64_def b64encode_ascii)

text \<open>
  C8: for every byte sequence \<open>b\<close>, \<open>b64decode\<close> of \<open>b64encode b\<close> is \<open>b\<close>, and
  \<open>save_image\<close> on an image whose \<open>data\<close> is \<open>b64encode b\<close> writes (where the file
  can be written) a file whose contents are exactly \<open>b\<close>; it returns the path of that
  file when the line that names it can be printed.
\<close>

theorem base64_round_trip:
  assumes "saved_path images_dir nm \<lparr>mimeType = m, data = b64encode b\<rparr> \<notin> unwritable w"
  shows "b64decode (b64encode b) = Inr b
       \<and> files (snd (save_image images_dir nm \<lparr>mimeType = m, data = b64encode b\<rparr> w))
           (saved_path images_dir nm \<lparr>mimeType = m, data = b64encode b\<rparr>) = Some b
       \<and> (printable w (''  Saved: ''
              @ str_path (saved_path images_dir nm \<lparr>mimeType = m, data = b64encode b\<rparr>)) \<longrightarrow>
            fst (save_image images_dir nm \<lparr>mimeType = m, data = b64encode b\<rparr> w) =
              Inr (saved_path images_dir nm \<lparr>mimeType = m, data = b64encode b\<rparr>))"
  using assms by (simp add: save_image_cases b64decode_b64encode)

theorem base64_round_trip_witness:
  "b64encode [104, 105] = ''aGk=''
   \<and> saved_path (PurePosixPath ''site/images'') ''plant''
        \<lparr>mimeType = ''image/png'', data = b64encode [104, 105]\<rparr>
       = PurePosixPath ''site/images/plant.png''
   \<and> PurePosixPath ''site/images/plant.png'' \<notin> unwritable world0
   \<and> fst (save_image (PurePosixPath ''site/images'') ''plant''
            \<lparr>mimeType = ''image/png'', data = b64encode [104, 105]\<rparr> world0)
       = Inr (PurePosixPath ''site/images/plant.png'')
   \<and> files (snd (save_image (PurePosixPath ''site/images'') ''plant''
                    \<lparr>mimeType = ''image/png'', data = b64encode [104, 105]\<rparr> world0))
        (PurePosixPath ''site/images/plant.png'') = Some [104, 105]"
proof -
  have e: "b64encode [104, 105] = ''aGk=''" by code_simp
  have p: "saved_path (PurePosixPath ''site/images'') ''plant''
        \<lparr>mimeType = ''image/png'', data = b64encode [104, 105]\<rparr>
       = PurePosixPath ''site/images/plant.png''"
    by code_simp
  have u: "saved_path (PurePosixPath ''site/images'') ''plant''
        \<lparr>mimeType = ''image/png'', data = b64encode [104, 105]\<rparr> \<notin> unwritable world0"
    by (simp add: world0_def)
  have pr: "printable world0 (''  Saved: '' @ str_path (saved_path (PurePosixPath ''site/images'')
              ''plant'' \<lparr>mimeType = ''image/png'', data = b64encode [104, 105]\<rparr>))"
    by code_simp
  from base64_round_trip [OF u] pr have
    "fst (save_image (PurePosixPath ''site/images'') ''plant''
            \<lparr>mimeType = ''image/png'', data = b64encode [104, 105]\<rparr> world0)
       = Inr (saved_path (PurePosixPath ''site/images'') ''plant''
            \<lparr>mimeType = ''image/png'', data = b64encode [104, 105]\<rparr>)"
    and "files (snd (save_image (PurePosixPath ''site/images'') ''plant''
                    \<lparr>mimeType = ''image/png'', data = b64encode [104, 105]\<rparr> world0))
        (saved_path (PurePosixPath ''site/images'') ''plant''
            \<lparr>mimeType = ''image/png'', data = b64encode [104, 105]\<rparr>) = Some [104, 105]"
    by simp_all
  with e p u show ?thesis by (simp only: simp_thms)
qed

subsection \<open>The effects of one iteration\<close>

lemma printable_Nil [simp]: "printable w []"
  by (simp add: printable_def)

lemma printable_Cons [simp]:
  "printable w (c # s) \<longleftrightarrow> (of_char c < (128::nat) \<or> console w c) \<and> printable w s"
  by (simp add: printable_def)

lemma printable_update [simp]:
  "printable (w\<lparr>stdout := a\<rparr>) s = printable w s"
  "printable (w\<lparr>timeline := b\<rparr>) s = printable w s"
  "printable (w\<lparr>files := c\<rparr>) s = printable w s"
  "printable (w\<lparr>dirs := d\<rparr>) s = printable w s"
  by (simp_all add: printable_def)

lemma printable_nl [simp]: "printable w nl"
  by (simp add: nl_def)

lemma snd_call_api: "snd (call_api remote req w) = w\<lparr>timeline := timeline w @ [Request req]\<rparr>"
  by (simp add: call_api_def urlopen_def split: http_outcome.splits)

text \<open>What a try block does to the world, given what it comes to.\<close>

lemma try_effect:
  assumes "(case call_api remote req w of
              (Inl e, w1) \<Rightarrow> (Inl e, w1)
            | (Inr im, w1) \<Rightarrow>
                (case save_image images_dir nm im w1 of
                   (Inl e, w2) \<Rightarrow> (Inl e, w2)
                 | (Inr f, w2) \<Rightarrow> (Inr im, w2))) = (r, w')"
  shows "requests_of (timeline w') = requests_of (timeline w) @ [req]
       \<and> console w' = console w
       \<and> dom (files w) \<subseteq> dom (files w')
       \<and> (\<exists>ls. stdout w' = stdout w @ ls)
       \<and> (case r of
             Inl e \<Rightarrow> True
           | Inr im \<Rightarrow>
               writes_of (timeline w') = writes_of (timeline w) @ [saved_path images_dir nm im]
             \<and> saved_path images_dir nm im \<in> dom (files w'))"
proof -
  obtain r1 w1 where c: "call_api remote req w = (r1, w1)" by (cases "call_api remote req w")
  then have w1: "w1 = w\<lparr>timeline := timeline w @ [Request req]\<rparr>"
    using snd_call_api [of remote req w] by simp
  show ?thesis
    using assms c w1
    by (auto simp: save_image_cases printable_def split: sum.splits if_splits)
qed

lemma images_try_effect:
  assumes "images_try remote API_KEY images_dir img w = (r, w')"
  shows "requests_of (timeline w') = requests_of (timeline w) @ [images_request API_KEY (prompt img)]
       \<and> console w' = console w
       \<and> dom (files w) \<subseteq> dom (files w')
       \<and> (\<exists>ls. stdout w' = stdout w @ ls)
       \<and> (case r of
             Inl e \<Rightarrow> True
           | Inr im \<Rightarrow>
               writes_of (timeline w') = writes_of (timeline w) @ [saved_path images_dir (name img) im]
             \<and> saved_path images_dir (name img) im \<in> dom (files w'))"
  using assms unfolding images_try_def images_generate_image_def by (rule try_effect)

lemma process_try_effect:
  assumes "process_try remote API_KEY images_dir step prev w = (r, w')"
  shows "requests_of (timeline w') =
           requests_of (timeline w) @ [process_request API_KEY (prompt step) prev]
       \<and> console w' = console w
       \<and> dom (files w) \<subseteq> dom (files w')
       \<and> (\<exists>ls. stdout w' = stdout w @ ls)
       \<and> (case r of
             Inl e \<Rightarrow> True
           | Inr im \<Rightarrow>
               writes_of (timeline w') = writes_of (timeline w) @ [saved_path images_dir (name step) im]
             \<and> saved_path images_dir (name step) im \<in> dom (files w'))"
  using assms unfolding process_try_def process_generate_image_def by (rule try_effect)

text \<open>The loops, one iteration after the other.\<close>

lemma images_loop_append:
  "images_loop remote API_KEY images_dir (xs @ ys) st w =
     (case images_loop remote API_KEY images_dir xs st w of
        (Inl e, w') \<Rightarrow> (Inl e, w')
      | (Inr st', w') \<Rightarrow> images_loop remote API_KEY images_dir ys st' w')"
  by (induction xs arbitrary: st w) (auto split: prod.splits sum.splits)

lemma process_loop_append:
  "process_loop remote API_KEY images_dir (xs @ ys) st w =
     (case process_loop remote API_KEY images_dir xs st w of
        (Inl e, w') \<Rightarrow> (Inl e, w')
      | (Inr st', w') \<Rightarrow> process_loop remote API_KEY images_dir ys st' w')"
  by (induction xs arbitrary: st w) (auto split: prod.splits sum.splits)

lemma images_after_Suc:
  assumes "k < length ps"
  shows "images_after remote API_KEY images_dir ps w (Suc k) =
           (case images_after remote API_KEY images_dir ps w k of
              (Inl e, w') \<Rightarrow> (Inl e, w')
            | (Inr st, w') \<Rightarrow> images_iteration remote API_KEY images_dir st (ps ! k) w')"
  using assms
  by (auto simp: images_after_def and_then_def take_Suc_conv_app_nth images_loop_append
        split: prod.splits sum.splits)

lemma process_after_Suc:
  assumes "k < length ps"
  shows "process_after remote API_KEY images_dir ps w (Suc k) =
           (case process_after remote API_KEY images_dir ps w k of
              (Inl e, w') \<Rightarrow> (Inl e, w')
            | (Inr st, w') \<Rightarrow> process_iteration remote API_KEY images_dir st (k, ps ! k) w')"
  using assms
  by (auto simp: process_after_def and_then_def take_Suc_conv_app_nth process_loop_append
        nth_enumerate_eq split: prod.splits sum.splits)

lemma images_main_after:
  "images_main remote API_KEY images_dir ps w =
     (case images_after remote API_KEY images_dir ps w (length ps) of
        (Inl e, w') \<Rightarrow> (Inl e, w')
      | (Inr st, w') \<Rightarrow> images_end images_dir st w')"
  by (auto simp: images_main_def images_after_def and_then_def split: prod.splits sum.splits)

lemma process_main_after:
  "process_main remote API_KEY images_dir ps w =
     (case process_after remote API_KEY images_dir ps w (length ps) of
        (Inl e, w') \<Rightarrow> (Inl e, w')
      | (Inr st, w') \<Rightarrow> process_end st w')"
  by (auto simp: process_main_def process_after_def and_then_def split: prod.splits sum.splits)

lemma images_begin_result:
  "images_begin ps w =
     (Inr \<lparr>successful = 0, failed = 0\<rparr>,
      w\<lparr>stdout := stdout w @
           [''Starting IWT image generation...'' @ nl,
            ''Generating '' @ str_nat (length ps) @ '' images in isometric flat-color style'' @ nl]\<rparr>)"
  by (simp add: images_begin_def and_then_def print_def)

lemma process_begin_result:
  "process_begin w =
     (Inr \<lparr>successful = 0, failed = 0, previous_image = None\<rparr>,
      w\<lparr>stdout := stdout w @
           [''Generating process step images for science section flipbook...'' @ nl,
            ''Each image will be fed into the next for visual continuity.'' @ nl]\<rparr>)"
  by (simp add: process_begin_def and_then_def print_def)

lemma images_end_result:
  "images_end images_dir st w =
     (if printable w (''  Images saved to: '' @ str_path images_dir) then
        (Inr (),
         w\<lparr>stdout := stdout w @
              [nl @ ''Image generation complete!'',
               ''  Successful: '' @ str_nat (successful st),
               ''  Failed: '' @ str_nat (failed st),
               ''  Images saved to: '' @ str_path images_dir]\<rparr>)
      else
        (Inl (LibraryError ''codec cannot encode character''),
         w\<lparr>stdout := stdout w @
              [nl @ ''Image generation complete!'',
               ''  Successful: '' @ str_nat (successful st),
               ''  Failed: '' @ str_nat (failed st)]\<rparr>))"
  by (simp add: images_end_def and_then_def print_def)

lemma process_end_result:
  "process_end st w =
     (Inr (),
      w\<lparr>stdout := stdout w @
           [nl @ ''Generation complete!'',
            ''  Successful: '' @ str_nat (successful st),
            ''  Failed: '' @ str_nat (failed st)]\<rparr>)"
  by (simp add: process_end_def and_then_def print_def)

lemma images_iteration_cases:
  "images_iteration remote API_KEY images_dir st img w =
     (if printable w (''Generating: '' @ name img @ ''...'') then
        (case images_try remote API_KEY images_dir img
                (w\<lparr>stdout := stdout w @ [''Generating: '' @ name img @ ''...'']\<rparr>) of
           (Inr im, w') \<Rightarrow> (Inr (st\<lparr>successful := successful st + 1\<rparr>), sleep 3 w')
         | (Inl e, w') \<Rightarrow>
             (if printable w' (''  Failed: '' @ str_exn e) then
                (Inr (st\<lparr>failed := failed st + 1\<rparr>),
                 w'\<lparr>stdout := stdout w' @ [''  Failed: '' @ str_exn e]\<rparr>)
              else (Inl (LibraryError ''codec cannot encode character''), w')))
      else (Inl (LibraryError ''codec cannot encode character''), w))"
  by (simp add: images_iteration_def and_then_def print_def split: prod.splits sum.splits)

lemma process_iteration_cases:
  "process_iteration remote API_KEY images_dir st (i, step) w =
     (if printable w (''Generating: '' @ name step @ '' (step '' @ str_nat (i + 1) @ ''/6)...'') then
        (case process_try remote API_KEY images_dir step (previous_image st)
                (w\<lparr>stdout := stdout w @
                     [''Generating: '' @ name step @ '' (step '' @ str_nat (i + 1) @ ''/6)...'']\<rparr>) of
           (Inr im, w') \<Rightarrow>
             (Inr (st\<lparr>successful := successful st + 1, previous_image := Some im\<rparr>), sleep 3 w')
         | (Inl e, w') \<Rightarrow>
             (if printable w' (''  Failed: '' @ str_exn e) then
                (Inr (st\<lparr>failed := failed st + 1, previous_image := None\<rparr>),
                 w'\<lparr>stdout := stdout w' @ [''  Failed: '' @ str_exn e]\<rparr>)
              else (Inl (LibraryError ''codec cannot encode character''), w')))
      else (Inl (LibraryError ''codec cannot encode character''), w))"
  by (simp add: process_iteration_def and_then_def print_def split: prod.splits sum.splits)

lemma images_outcome_cases:
  assumes "images_after remote API_KEY images_dir ps w k = (r, wk)"
  shows "images_outcome remote API_KEY images_dir ps w k =
           (case r of
              Inl e \<Rightarrow> None
            | Inr st \<Rightarrow>
                (if printable wk (''Generating: '' @ name (ps ! k) @ ''...'') then
                   Some (fst (images_try remote API_KEY images_dir (ps ! k)
                           (wk\<lparr>stdout := stdout wk @ [''Generating: '' @ name (ps ! k) @ ''...'']\<rparr>)))
                 else None))"
  using assms by (simp add: images_outcome_def print_def split: sum.splits)

lemma process_outcome_cases:
  assumes "process_after remote API_KEY images_dir ps w k = (r, wk)"
  shows "process_outcome remote API_KEY images_dir ps w k =
           (case r of
              Inl e \<Rightarrow> None
            | Inr st \<Rightarrow>
                (if printable wk (''Generating: '' @ name (ps ! k) @ '' (step '' @ str_nat (k + 1)
                                   @ ''/6)...'') then
                   Some (fst (process_try remote API_KEY images_dir (ps ! k) (previous_image st)
                           (wk\<lparr>stdout := stdout wk @
                                [''Generating: '' @ name (ps ! k) @ '' (step '' @ str_nat (k + 1)
                                   @ ''/6)...'']\<rparr>)))
                 else None))"
  using assms by (simp add: process_outcome_def print_def split: sum.splits)

subsection \<open>A run in which every entry succeeds\<close>

lemma images_all_saved_run:
  assumes all: "\<forall>j<length ps. \<exists>im. images_outcome remote API_KEY images_dir ps w j = Some (Inr im)"
    and "k \<le> length ps"
  shows "\<exists>wk ls. images_after remote API_KEY images_dir ps w k =
                   (Inr \<lparr>successful = k, failed = 0\<rparr>, wk)
          \<and> console wk = console w
          \<and> stdout wk = stdout w @ ls
          \<and> writes_of (timeline wk) =
              writes_of (timeline w) @
                map (\<lambda>j. saved_path images_dir (name (ps ! j))
                            (projr (the (images_outcome remote API_KEY images_dir ps w j)))) [0..<k]
          \<and> (\<forall>j<k. saved_path images_dir (name (ps ! j))
                      (projr (the (images_outcome remote API_KEY images_dir ps w j)))
                    \<in> dom (files wk))"
  using assms(2)
proof (induction k)
  case 0
  show ?case
    by (simp add: images_after_def and_then_def images_begin_result)
next
  case (Suc k)
  then have k: "k < length ps" by simp
  let ?out = "images_outcome remote API_KEY images_dir ps w"
  let ?path = "\<lambda>j. saved_path images_dir (name (ps ! j)) (projr (the (?out j)))"
  from Suc obtain wk ls where
    after: "images_after remote API_KEY images_dir ps w k = (Inr \<lparr>successful = k, failed = 0\<rparr>, wk)"
    and con: "console wk = console w"
    and out: "stdout wk = stdout w @ ls"
    and wr: "writes_of (timeline wk) = writes_of (timeline w) @ map ?path [0..<k]"
    and fl: "\<forall>j<k. ?path j \<in> dom (files wk)"
    by auto
  from all k obtain im where im: "?out k = Some (Inr im)" by auto
  let ?line = "''Generating: '' @ name (ps ! k) @ ''...''"
  let ?w1 = "wk\<lparr>stdout := stdout wk @ [?line]\<rparr>"
  from im images_outcome_cases [OF after]
  have pr: "printable wk ?line"
    and tr: "fst (images_try remote API_KEY images_dir (ps ! k) ?w1) = Inr im"
    by (auto split: if_splits)
  obtain w2 where tb: "images_try remote API_KEY images_dir (ps ! k) ?w1 = (Inr im, w2)"
    using tr by (cases "images_try remote API_KEY images_dir (ps ! k) ?w1") auto
  note eff = images_try_effect [OF tb]
  from eff obtain ls2 where ls2: "stdout w2 = stdout ?w1 @ ls2" by auto
  have step: "images_after remote API_KEY images_dir ps w (Suc k) =
                (Inr \<lparr>successful = Suc k, failed = 0\<rparr>, sleep 3 w2)"
    using pr tb by (simp add: images_after_Suc [OF k] after images_iteration_cases)
  have p: "?path k = saved_path images_dir (name (ps ! k)) im" by (simp add: im)
  have "console (sleep 3 w2) = console w"
    using eff con by (simp add: sleep_def)
  moreover have "stdout (sleep 3 w2) = stdout w @ (ls @ [?line] @ ls2)"
    using ls2 out by (simp add: sleep_def)
  moreover have "writes_of (timeline (sleep 3 w2)) = writes_of (timeline w) @ map ?path [0..<Suc k]"
    using eff wr p by (simp add: sleep_def)
  moreover have "\<forall>j<Suc k. ?path j \<in> dom (files (sleep 3 w2))"
  proof (intro allI impI)
    fix j assume "j < Suc k"
    then consider "j < k" | "j = k" by linarith
    then show "?path j \<in> dom (files (sleep 3 w2))"
    proof cases
      case 1
      with fl have "?path j \<in> dom (files ?w1)" by simp
      with eff show ?thesis by (auto simp: sleep_def)
    next
      case 2
      with eff p show ?thesis by (simp add: sleep_def)
    qed
  qed
  ultimately show ?case using step by blast
qed

lemma str_nat_0: "str_nat 0 = ''0''"
  by code_simp

lemma images_end_effect:
  "timeline (snd (images_end images_dir st w)) = timeline w"
  "files (snd (images_end images_dir st w)) = files w"
  by (simp_all add: images_end_result)

text \<open>
  C1: when for every entry of the list the \<open>try\<close> block is reached and
  \<open>generate_image\<close> and \<open>save_image\<close> succeed in it, \<open>main\<close> of
  \<open>generate-images.py\<close> has written one file per entry, the file of entry \<open>k\<close> being
  \<open>images_dir / (name + '.png')\<close> or \<open>images_dir / (name + '.jpg')\<close> for the entry's
  name and present at the end, and the lines it prints end with the summary
  \<open>Successful:\<close> the length of the list, \<open>Failed: 0\<close>, followed by the line that
  names the directory when that can be printed; then \<open>main\<close> returns. The file of a
  name without a slash lies in \<open>images_dir\<close>, and names that are distinct and have no
  slash give distinct files.
\<close>

theorem all_succeed_all_saved:
  assumes "\<forall>k<length ps. \<exists>im. images_outcome remote API_KEY images_dir ps w k = Some (Inr im)"
  shows "length (written_since w (snd (images_main remote API_KEY images_dir ps w))) = length ps
       \<and> (\<forall>k<length ps.
            (written_since w (snd (images_main remote API_KEY images_dir ps w)) ! k
               = path_join images_dir (name (ps ! k) @ ''.png'')
             \<or> written_since w (snd (images_main remote API_KEY images_dir ps w)) ! k
               = path_join images_dir (name (ps ! k) @ ''.jpg''))
          \<and> written_since w (snd (images_main remote API_KEY images_dir ps w)) ! k
               \<in> dom (files (snd (images_main remote API_KEY images_dir ps w))))
       \<and> (\<forall>k<length ps. CHR ''/'' \<notin> set (name (ps ! k)) \<longrightarrow>
            anchor (written_since w (snd (images_main remote API_KEY images_dir ps w)) ! k)
              = anchor images_dir
          \<and> butlast (segments (written_since w (snd (images_main remote API_KEY images_dir ps w)) ! k))
              = segments images_dir)
       \<and> (list_all (\<lambda>p. CHR ''/'' \<notin> set (name p)) ps \<longrightarrow> distinct (map name ps) \<longrightarrow>
            distinct (written_since w (snd (images_main remote API_KEY images_dir ps w))))
       \<and> (\<exists>before.
            printed_since w (snd (images_main remote API_KEY images_dir ps w)) =
              before @
              [nl @ ''Image generation complete!'',
               ''  Successful: '' @ str_nat (length ps),
               ''  Failed: 0''] @
              (if printable w (''  Images saved to: '' @ str_path images_dir)
               then [''  Images saved to: '' @ str_path images_dir] else []))
       \<and> (printable w (''  Images saved to: '' @ str_path images_dir) \<longrightarrow>
            fst (images_main remote API_KEY images_dir ps w) = Inr ())"
proof -
  let ?out = "images_outcome remote API_KEY images_dir ps w"
  let ?main = "images_main remote API_KEY images_dir ps w"
  let ?path = "\<lambda>j. saved_path images_dir (name (ps ! j)) (projr (the (?out j)))"
  let ?last = "''  Images saved to: '' @ str_path images_dir"
  from images_all_saved_run [OF assms le_refl] obtain wN ls where
    after: "images_after remote API_KEY images_dir ps w (length ps) =
              (Inr \<lparr>successful = length ps, failed = 0\<rparr>, wN)"
    and con: "console wN = console w"
    and out: "stdout wN = stdout w @ ls"
    and wr: "writes_of (timeline wN) = writes_of (timeline w) @ map ?path [0..<length ps]"
    and fl: "\<forall>j<length ps. ?path j \<in> dom (files wN)"
    by blast
  have main: "?main = images_end images_dir \<lparr>successful = length ps, failed = 0\<rparr> wN"
    by (simp add: images_main_after after)
  have pr: "printable wN ?last = printable w ?last"
    using con by (rule printable_console)
  have written: "written_since w (snd ?main) = map ?path [0..<length ps]"
    by (simp add: written_since_def main images_end_effect wr)
  have len: "length (written_since w (snd ?main)) = length ps"
    by (simp add: written)
  have each: "\<forall>k<length ps.
            (written_since w (snd ?main) ! k = path_join images_dir (name (ps ! k) @ ''.png'')
             \<or> written_since w (snd ?main) ! k = path_join images_dir (name (ps ! k) @ ''.jpg''))
          \<and> written_since w (snd ?main) ! k \<in> dom (files (snd ?main))"
  proof (intro allI impI)
    fix k assume k: "k < length ps"
    then have p: "written_since w (snd ?main) ! k = ?path k" by (simp add: written)
    from fl k have "?path k \<in> dom (files (snd ?main))"
      by (simp add: main images_end_effect)
    with p saved_path_cases [of images_dir "name (ps ! k)" "projr (the (?out k))"]
    show "(written_since w (snd ?main) ! k = path_join images_dir (name (ps ! k) @ ''.png'')
             \<or> written_since w (snd ?main) ! k = path_join images_dir (name (ps ! k) @ ''.jpg''))
          \<and> written_since w (snd ?main) ! k \<in> dom (files (snd ?main))"
      by auto
  qed
  have inside: "\<forall>k<length ps. CHR ''/'' \<notin> set (name (ps ! k)) \<longrightarrow>
            anchor (written_since w (snd ?main) ! k) = anchor images_dir
          \<and> butlast (segments (written_since w (snd ?main) ! k)) = segments images_dir"
  proof (intro allI impI)
    fix k assume k: "k < length ps" and plain: "CHR ''/'' \<notin> set (name (ps ! k))"
    from k have p: "written_since w (snd ?main) ! k = ?path k" by (simp add: written)
    from saved_path_cases [of images_dir "name (ps ! k)" "projr (the (?out k))"] plain
    show "anchor (written_since w (snd ?main) ! k) = anchor images_dir
          \<and> butlast (segments (written_since w (snd ?main) ! k)) = segments images_dir"
      unfolding p by (auto simp: path_join_plain_png path_join_plain_jpg)
  qed
  have dist: "list_all (\<lambda>p. CHR ''/'' \<notin> set (name p)) ps \<longrightarrow> distinct (map name ps) \<longrightarrow>
            distinct (written_since w (snd ?main))"
  proof (intro impI)
    assume plain: "list_all (\<lambda>p. CHR ''/'' \<notin> set (name p)) ps" and d: "distinct (map name ps)"
    show "distinct (written_since w (snd ?main))"
      unfolding written distinct_conv_nth
    proof (intro allI impI)
      fix i j
      assume i: "i < length (map ?path [0..<length ps])"
        and j: "j < length (map ?path [0..<length ps])" and ne: "i \<noteq> j"
      from d i j ne have "name (ps ! i) \<noteq> name (ps ! j)"
        by (simp add: distinct_conv_nth)
      moreover from plain i j have "CHR ''/'' \<notin> set (name (ps ! i))"
        and "CHR ''/'' \<notin> set (name (ps ! j))"
        by (simp_all add: list_all_length)
      ultimately have "?path i \<noteq> ?path j" using saved_path_inj by blast
      with i j show "map ?path [0..<length ps] ! i \<noteq> map ?path [0..<length ps] ! j" by simp
    qed
  qed
  have printed: "printed_since w (snd ?main) =
              (ls @ []) @
              [nl @ ''Image generation complete!'',
               ''  Successful: '' @ str_nat (length ps),
               ''  Failed: 0''] @
              (if printable w ?last then [?last] else [])"
    using pr by (simp add: printed_since_def main images_end_result out str_nat_0)
  have ret: "printable w ?last \<longrightarrow> fst ?main = Inr ()"
    using pr by (simp add: main images_end_result)
  from len each inside dist printed ret show ?thesis by blast
qed

theorem all_succeed_all_saved_witness:
  "images_outcome (always (Body image_response)) (Some ''k'') (PurePosixPath ''site/images'')
     two_prompts world0 0 = Some (Inr sample_image)
   \<and> images_outcome (always (Body image_response)) (Some ''k'') (PurePosixPath ''site/images'')
     two_prompts world0 1 = Some (Inr sample_image)
   \<and> length (written_since world0
        (snd (images_main (always (Body image_response)) (Some ''k'') (PurePosixPath ''site/images'')
                two_prompts world0))) = 2
   \<and> distinct (written_since world0
        (snd (images_main (always (Body image_response)) (Some ''k'') (PurePosixPath ''site/images'')
                two_prompts world0)))
   \<and> fst (images_main (always (Body image_response)) (Some ''k'') (PurePosixPath ''site/images'')
            two_prompts world0) = Inr ()
   \<and> stdout (snd (images_main (always (Body image_response)) (Some ''k'')
                     (PurePosixPath ''site/images'') two_prompts world0)) =
       [''Starting IWT image generation...'' @ nl,
        ''Generating 2 images in isometric flat-color style'' @ nl,
        ''Generating: plant...'', ''  Saved: site/images/plant.png'',
        ''Generating: barrel...'', ''  Saved: site/images/barrel.png'',
        nl @ ''Image generation complete!'', ''  Successful: 2'', ''  Failed: 0'',
        ''  Images saved to: site/images'']"
proof -
  have o0: "images_outcome (always (Body image_response)) (Some ''k'') (PurePosixPath ''site/images'')
     two_prompts world0 0 = Some (Inr sample_image)"
    by code_simp
  have o1: "images_outcome (always (Body image_response)) (Some ''k'') (PurePosixPath ''site/images'')
     two_prompts world0 1 = Some (Inr sample_image)"
    by code_simp
  have out: "stdout (snd (images_main (always (Body image_response)) (Some ''k'')
                     (PurePosixPath ''site/images'') two_prompts world0)) =
       [''Starting IWT image generation...'' @ nl,
        ''Generating 2 images in isometric flat-color style'' @ nl,
        ''Generating: plant...'', ''  Saved: site/images/plant.png'',
        ''Generating: barrel...'', ''  Saved: site/images/barrel.png'',
        nl @ ''Image generation complete!'', ''  Successful: 2'', ''  Failed: 0'',
        ''  Images saved to: site/images'']"
    by code_simp
  have pr: "printable world0 (''  Images saved to: '' @ str_path (PurePosixPath ''site/images''))"
    by code_simp
  have l: "length two_prompts = 2" by (simp add: two_prompts_def)
  have d: "distinct (map name two_prompts)" by (simp add: two_prompts_def)
  have s: "list_all (\<lambda>p. CHR ''/'' \<notin> set (name p)) two_prompts" by (simp add: two_prompts_def)
  have h: "\<forall>k<length two_prompts.
             \<exists>im. images_outcome (always (Body image_response)) (Some ''k'')
                    (PurePosixPath ''site/images'') two_prompts world0 k = Some (Inr im)"
  proof (intro allI impI)
    fix k assume "k < length two_prompts"
    then have "k = 0 \<or> k = 1" using l by auto
    with o0 o1 show "\<exists>im. images_outcome (always (Body image_response)) (Some ''k'')
                    (PurePosixPath ''site/images'') two_prompts world0 k = Some (Inr im)"
      by auto
  qed
  from all_succeed_all_saved [OF h] o0 o1 l d s pr out show ?thesis by simp
qed

subsection \<open>The chain of images\<close>

lemma process_step:
  assumes k: "k < length ps"
    and after: "process_after remote API_KEY images_dir ps w k = (Inr st, wk)"
  shows "(process_outcome remote API_KEY images_dir ps w k = None
          \<and> snd (process_after remote API_KEY images_dir ps w (Suc k)) = wk
          \<and> (\<exists>e. fst (process_after remote API_KEY images_dir ps w (Suc k)) = Inl e))
       \<or> (\<exists>r. process_outcome remote API_KEY images_dir ps w k = Some r
            \<and> requests_of (timeline (snd (process_after remote API_KEY images_dir ps w (Suc k)))) =
                requests_of (timeline wk) @
                  [process_request API_KEY (prompt (ps ! k)) (previous_image st)]
            \<and> console (snd (process_after remote API_KEY images_dir ps w (Suc k))) = console wk
            \<and> (\<forall>st'. fst (process_after remote API_KEY images_dir ps w (Suc k)) = Inr st' \<longrightarrow>
                  previous_image st' = (case r of Inl e \<Rightarrow> None | Inr im \<Rightarrow> Some im)))"
    and "(\<forall>c. console wk c) \<longrightarrow>
           (\<exists>st'. fst (process_after remote API_KEY images_dir ps w (Suc k)) = Inr st')"
proof -
  let ?line = "''Generating: '' @ name (ps ! k) @ '' (step '' @ str_nat (k + 1) @ ''/6)...''"
  let ?w1 = "wk\<lparr>stdout := stdout wk @ [?line]\<rparr>"
  obtain r w2 where tb:
    "process_try remote API_KEY images_dir (ps ! k) (previous_image st) ?w1 = (r, w2)"
    by (cases "process_try remote API_KEY images_dir (ps ! k) (previous_image st) ?w1")
  note eff = process_try_effect [OF tb]
  note nx = process_after_Suc [OF k, of remote API_KEY images_dir w]
  note out = process_outcome_cases [OF after]
  show "(process_outcome remote API_KEY images_dir ps w k = None
          \<and> snd (process_after remote API_KEY images_dir ps w (Suc k)) = wk
          \<and> (\<exists>e. fst (process_after remote API_KEY images_dir ps w (Suc k)) = Inl e))
       \<or> (\<exists>r. process_outcome remote API_KEY images_dir ps w k = Some r
            \<and> requests_of (timeline (snd (process_after remote API_KEY images_dir ps w (Suc k)))) =
                requests_of (timeline wk) @
                  [process_request API_KEY (prompt (ps ! k)) (previous_image st)]
            \<and> console (snd (process_after remote API_KEY images_dir ps w (Suc k))) = console wk
            \<and> (\<forall>st'. fst (process_after remote API_KEY images_dir ps w (Suc k)) = Inr st' \<longrightarrow>
                  previous_image st' = (case r of Inl e \<Rightarrow> None | Inr im \<Rightarrow> Some im)))"
  proof (cases "printable wk ?line")
    case False
    then show ?thesis
      using out by (simp add: nx after process_iteration_cases)
  next
    case True
    then have o: "process_outcome remote API_KEY images_dir ps w k = Some r"
      using out tb by simp
    have "requests_of (timeline (snd (process_after remote API_KEY images_dir ps w (Suc k)))) =
                requests_of (timeline wk) @
                  [process_request API_KEY (prompt (ps ! k)) (previous_image st)]"
      using True tb eff
      by (simp add: nx after process_iteration_cases sleep_def split: sum.splits)
    moreover have "console (snd (process_after remote API_KEY images_dir ps w (Suc k))) = console wk"
      using True tb eff
      by (simp add: nx after process_iteration_cases sleep_def split: sum.splits)
    moreover have "\<forall>st'. fst (process_after remote API_KEY images_dir ps w (Suc k)) = Inr st' \<longrightarrow>
                  previous_image st' = (case r of Inl e \<Rightarrow> None | Inr im \<Rightarrow> Some im)"
      using True tb
      by (auto simp: nx after process_iteration_cases split: sum.splits if_splits)
    ultimately show ?thesis using o by blast
  qed
  show "(\<forall>c. console wk c) \<longrightarrow>
           (\<exists>st'. fst (process_after remote API_KEY images_dir ps w (Suc k)) = Inr st')"
  proof
    assume all: "\<forall>c. console wk c"
    then have p1: "printable wk ?line" by (rule printable_total)
    from all eff have "\<forall>c. console w2 c" by simp
    then have p2: "printable w2 s" for s by (rule printable_total)
    show "\<exists>st'. fst (process_after remote API_KEY images_dir ps w (Suc k)) = Inr st'"
      using p1 p2 tb
      by (simp add: nx after process_iteration_cases split: sum.splits)
  qed
qed

lemma process_run:
  assumes "k \<le> length ps"
  shows "\<exists>m\<le>k.
           requests_of (timeline (snd (process_after remote API_KEY images_dir ps w k))) =
             requests_of (timeline w) @
               map (\<lambda>j. process_request API_KEY (prompt (ps ! j))
                          (process_context remote API_KEY images_dir ps w j)) [0..<m]
         \<and> console (snd (process_after remote API_KEY images_dir ps w k)) = console w
         \<and> (\<forall>j<m. process_outcome remote API_KEY images_dir ps w j \<noteq> None)
         \<and> (\<forall>st. fst (process_after remote API_KEY images_dir ps w k) = Inr st \<longrightarrow>
               m = k \<and> previous_image st = process_context remote API_KEY images_dir ps w k)"
  using assms
proof (induction k)
  case 0
  show ?case
    by (simp add: process_after_def and_then_def process_begin_result process_context_def)
next
  case (Suc k)
  then have k: "k < length ps" by simp
  let ?after = "process_after remote API_KEY images_dir ps w"
  let ?ctx = "process_context remote API_KEY images_dir ps w"
  let ?out = "process_outcome remote API_KEY images_dir ps w"
  let ?req = "\<lambda>j. process_request API_KEY (prompt (ps ! j)) (?ctx j)"
  from Suc obtain m where m: "m \<le> k"
    and rq: "requests_of (timeline (snd (?after k))) = requests_of (timeline w) @ map ?req [0..<m]"
    and con: "console (snd (?after k)) = console w"
    and ent: "\<forall>j<m. ?out j \<noteq> None"
    and st: "\<forall>st. fst (?after k) = Inr st \<longrightarrow> m = k \<and> previous_image st = ?ctx k"
    by auto
  obtain r wk where after: "?after k = (r, wk)" by (cases "?after k")
  show ?case
  proof (cases r)
    case (Inl e)
    with after have same: "?after (Suc k) = (Inl e, wk)"
      by (simp add: process_after_Suc [OF k])
    from m have "m \<le> Suc k" by simp
    with rq con ent same after show ?thesis by auto
  next
    case (Inr s)
    with after have a: "?after k = (Inr s, wk)" by simp
    with st have mk: "m = k" and prev: "previous_image s = ?ctx k" by auto
    from process_step(1) [OF k a]
    show ?thesis
    proof
      assume stop: "?out k = None \<and> snd (?after (Suc k)) = wk \<and> (\<exists>e. fst (?after (Suc k)) = Inl e)"
      from m have "m \<le> Suc k" by simp
      moreover from stop rq a
      have "requests_of (timeline (snd (?after (Suc k)))) = requests_of (timeline w) @ map ?req [0..<m]"
        by simp
      moreover from stop con a have "console (snd (?after (Suc k))) = console w" by simp
      moreover from stop
      have "\<forall>st. fst (?after (Suc k)) = Inr st \<longrightarrow> m = Suc k \<and> previous_image st = ?ctx (Suc k)"
        by auto
      ultimately show ?thesis using ent by blast
    next
      assume "\<exists>r. ?out k = Some r
            \<and> requests_of (timeline (snd (?after (Suc k)))) =
                requests_of (timeline wk) @ [process_request API_KEY (prompt (ps ! k)) (previous_image s)]
            \<and> console (snd (?after (Suc k))) = console wk
            \<and> (\<forall>st'. fst (?after (Suc k)) = Inr st' \<longrightarrow>
                  previous_image st' = (case r of Inl e \<Rightarrow> None | Inr im \<Rightarrow> Some im))"
      then obtain r' where o: "?out k = Some r'"
        and rq': "requests_of (timeline (snd (?after (Suc k)))) =
                requests_of (timeline wk) @ [process_request API_KEY (prompt (ps ! k)) (previous_image s)]"
        and con': "console (snd (?after (Suc k))) = console wk"
        and prev': "\<forall>st'. fst (?after (Suc k)) = Inr st' \<longrightarrow>
                  previous_image st' = (case r' of Inl e \<Rightarrow> None | Inr im \<Rightarrow> Some im)"
        by blast
      have ctx: "?ctx (Suc k) = (case r' of Inl e \<Rightarrow> None | Inr im \<Rightarrow> Some im)"
        by (simp add: process_context_def o split: sum.splits)
      have "requests_of (timeline (snd (?after (Suc k)))) =
              requests_of (timeline w) @ map ?req [0..<Suc k]"
        using rq rq' a mk prev by simp
      moreover have "console (snd (?after (Suc k))) = console w"
        using con con' a by simp
      moreover have "\<forall>j<Suc k. ?out j \<noteq> None"
        using ent mk o by (auto simp: less_Suc_eq)
      moreover have "\<forall>st. fst (?after (Suc k)) = Inr st \<longrightarrow>
                       Suc k = Suc k \<and> previous_image st = ?ctx (Suc k)"
        using prev' ctx by simp
      ultimately show ?thesis by blast
    qed
  qed
qed

lemma process_never_stops:
  assumes "\<forall>c. console w c" and "k \<le> length ps"
  shows "\<exists>st. fst (process_after remote API_KEY images_dir ps w k) = Inr st"
  using assms(2)
proof (induction k)
  case 0
  show ?case by (simp add: process_after_def and_then_def process_begin_result)
next
  case (Suc k)
  then have k: "k < length ps" by simp
  from Suc obtain st where "fst (process_after remote API_KEY images_dir ps w k) = Inr st"
    by auto
  then obtain wk where a: "process_after remote API_KEY images_dir ps w k = (Inr st, wk)"
    by (cases "process_after remote API_KEY images_dir ps w k") auto
  from process_run [OF less_imp_le [OF k], of remote API_KEY images_dir w] a
  have "console wk = console w" by auto
  with assms(1) have "\<forall>c. console wk c" by simp
  with process_step(2) [OF k a] show ?case by blast
qed

lemma process_end_effect:
  "timeline (snd (process_end st w)) = timeline w"
  by (simp add: process_end_result)

lemma process_main_timeline:
  "timeline (snd (process_main remote API_KEY images_dir ps w)) =
     timeline (snd (process_after remote API_KEY images_dir ps w (length ps)))"
  by (simp add: process_main_after process_end_effect split: prod.splits sum.splits)

text \<open>
  C3: in \<open>generate-process-images.py\<close>, whenever the run sends the request of step
  \<open>k + 1\<close>, that request is built from the step's prompt and, as the previous image,
  the image of step \<open>k\<close> when the \<open>try\<close> block of step \<open>k\<close> succeeded, and \<open>None\<close>
  when it raised. On a standard output that has every character the run sends the
  requests of all steps. A request built from \<open>None\<close> carries no image, one built from
  an image carries that image only.
\<close>

theorem failed_step_resets_context:
  assumes "Suc k < length ps"
  shows "(length (requests_of (timeline w)) + Suc k
            < length (requests_of (timeline (snd (process_main remote API_KEY images_dir ps w)))) \<longrightarrow>
          requests_of (timeline (snd (process_main remote API_KEY images_dir ps w)))
            ! (length (requests_of (timeline w)) + Suc k) =
          process_request API_KEY (prompt (ps ! Suc k))
            (case process_outcome remote API_KEY images_dir ps w k of
               Some (Inr im) \<Rightarrow> Some im
             | Some (Inl e) \<Rightarrow> None
             | None \<Rightarrow> None)
          \<and> process_outcome remote API_KEY images_dir ps w k \<noteq> None)
       \<and> ((\<forall>c. console w c) \<longrightarrow>
            length (requests_of (timeline (snd (process_main remote API_KEY images_dir ps w)))) =
              length (requests_of (timeline w)) + length ps)
       \<and> List.map_filter inlineData (contents (process_request API_KEY p None)) = []
       \<and> List.map_filter inlineData (contents (process_request API_KEY p (Some im))) = [im]"
proof -
  let ?ctx = "process_context remote API_KEY images_dir ps w"
  let ?out = "process_outcome remote API_KEY images_dir ps w"
  let ?req = "\<lambda>j. process_request API_KEY (prompt (ps ! j)) (?ctx j)"
  let ?final = "requests_of (timeline (snd (process_main remote API_KEY images_dir ps w)))"
  from process_run [OF le_refl, of ps remote API_KEY images_dir w] obtain m where
    m: "m \<le> length ps"
    and rq: "?final = requests_of (timeline w) @ map ?req [0..<m]"
    and ent: "\<forall>j<m. ?out j \<noteq> None"
    and st: "\<forall>st. fst (process_after remote API_KEY images_dir ps w (length ps)) = Inr st \<longrightarrow>
               m = length ps"
    by (auto simp: process_main_timeline)
  have first: "length (requests_of (timeline w)) + Suc k < length ?final \<longrightarrow>
          ?final ! (length (requests_of (timeline w)) + Suc k) =
          process_request API_KEY (prompt (ps ! Suc k))
            (case ?out k of Some (Inr im) \<Rightarrow> Some im | Some (Inl e) \<Rightarrow> None | None \<Rightarrow> None)
          \<and> ?out k \<noteq> None"
  proof
    assume "length (requests_of (timeline w)) + Suc k < length ?final"
    then have km: "Suc k < m" by (simp add: rq)
    then have "?final ! (length (requests_of (timeline w)) + Suc k) = ?req (Suc k)"
      by (simp add: rq nth_append)
    moreover have "?ctx (Suc k) =
        (case ?out k of Some (Inr im) \<Rightarrow> Some im | Some (Inl e) \<Rightarrow> None | None \<Rightarrow> None)"
      by (simp add: process_context_def)
    moreover from ent km have "?out k \<noteq> None" by simp
    ultimately show "?final ! (length (requests_of (timeline w)) + Suc k) =
          process_request API_KEY (prompt (ps ! Suc k))
            (case ?out k of Some (Inr im) \<Rightarrow> Some im | Some (Inl e) \<Rightarrow> None | None \<Rightarrow> None)
          \<and> ?out k \<noteq> None"
      by simp
  qed
  have second: "(\<forall>c. console w c) \<longrightarrow>
            length ?final = length (requests_of (timeline w)) + length ps"
  proof
    assume "\<forall>c. console w c"
    from process_never_stops [OF this le_refl] st have "m = length ps" by blast
    then show "length ?final = length (requests_of (timeline w)) + length ps"
      by (simp add: rq)
  qed
  have third: "List.map_filter inlineData (contents (process_request API_KEY p None)) = []"
    and fourth: "List.map_filter inlineData (contents (process_request API_KEY p (Some im))) = [im]"
    by (simp_all add: process_request_def List.map_filter_def)
  from first second third fourth show ?thesis by blast
qed

theorem failed_step_resets_context_witness:
  "Suc 0 < length two_prompts
   \<and> length (requests_of (timeline (snd (process_main fail_first (Some ''k'')
        (PurePosixPath ''site/images'') two_prompts world0)))) = 2
   \<and> process_outcome fail_first (Some ''k'') (PurePosixPath ''site/images'') two_prompts world0 0
       = Some (Inl (Exception ''HTTP 429: slow down''))
   \<and> requests_of (timeline (snd (process_main fail_first (Some ''k'')
        (PurePosixPath ''site/images'') two_prompts world0))) ! Suc 0
       = process_request (Some ''k'') ''a barrel'' None
   \<and> process_outcome (always (Body image_response)) (Some ''k'') (PurePosixPath ''site/images'')
        two_prompts world0 0 = Some (Inr sample_image)
   \<and> requests_of (timeline (snd (process_main (always (Body image_response)) (Some ''k'')
        (PurePosixPath ''site/images'') two_prompts world0))) ! Suc 0
       = process_request (Some ''k'') ''a barrel'' (Some sample_image)
   \<and> length (requests_of (timeline (snd (process_main (always (Body accented_error)) (Some ''k'')
        (PurePosixPath ''site/images'') two_prompts world1)))) = 2"
proof -
  have l: "Suc 0 < length two_prompts" by (simp add: two_prompts_def)
  have l2: "length two_prompts = 2" by (simp add: two_prompts_def)
  have p: "prompt (two_prompts ! Suc 0) = ''a barrel''" by (simp add: two_prompts_def)
  have w0: "requests_of (timeline world0) = []" by (simp add: world0_def)
  have w1: "requests_of (timeline world1) = []" by (simp add: world1_def world0_def)
  have c1: "\<forall>c. console world1 c" by (simp add: world1_def every_char_def)
  have n: "length (requests_of (timeline (snd (process_main fail_first (Some ''k'')
        (PurePosixPath ''site/images'') two_prompts world0)))) = 2"
    by code_simp
  have n': "length (requests_of (timeline (snd (process_main (always (Body image_response))
        (Some ''k'') (PurePosixPath ''site/images'') two_prompts world0)))) = 2"
    by code_simp
  have o: "process_outcome fail_first (Some ''k'') (PurePosixPath ''site/images'') two_prompts world0 0
       = Some (Inl (Exception ''HTTP 429: slow down''))"
    by code_simp
  have o': "process_outcome (always (Body image_response)) (Some ''k'') (PurePosixPath ''site/images'')
        two_prompts world0 0 = Some (Inr sample_image)"
    by code_simp
  from failed_step_resets_context [OF l, where remote = fail_first and API_KEY = "Some ''k''"
      and images_dir = "PurePosixPath ''site/images''" and w = world0]
    failed_step_resets_context [OF l, where remote = "always (Body image_response)"
      and API_KEY = "Some ''k''" and images_dir = "PurePosixPath ''site/images''" and w = world0]
    failed_step_resets_context [OF l, where remote = "always (Body accented_error)"
      and API_KEY = "Some ''k''" and images_dir = "PurePosixPath ''site/images''" and w = world1]
    l l2 p w0 w1 c1 n n' o o'
  show ?thesis by simp
qed

subsection \<open>Where the batch loops fall short\<close>

text \<open>
  C4 fails on the code: \<open>time.sleep(3)\<close> stands inside the \<open>try\<close> block after the
  calls that can raise, so no pause follows a failed call. With a service that refuses
  the first request, both loops send the second request straight after the first; the
  only pause of the run follows the second, successful entry.
\<close>

theorem no_pause_after_failed_call:
  "timeline (snd (images_main fail_first (Some ''k'') (PurePosixPath ''site/images'')
                    two_prompts world0)) =
     [Request (images_request (Some ''k'') ''a plant''),
      Request (images_request (Some ''k'') ''a barrel''),
      WriteFile (PurePosixPath ''site/images/barrel.png''), Sleep 3]
   \<and> timeline (snd (process_main fail_first (Some ''k'') (PurePosixPath ''site/images'')
                      two_prompts world0)) =
     [Request (process_request (Some ''k'') ''a plant'' None),
      Request (process_request (Some ''k'') ''a barrel'' None),
      WriteFile (PurePosixPath ''site/images/barrel.png''), Sleep 3]"
  by code_simp

text \<open>
  C2 fails on the code: the handler prints the failure before it counts it, and what
  \<open>print\<close> raises there leaves the loop. With a service whose error message has a
  character that the standard output cannot encode, \<open>main\<close> of both batch scripts
  raises at the first entry: one request is sent, the second entry is never tried, no
  summary is printed, and the scripts end with exit code 1.
\<close>

theorem failure_line_leaves_main:
  "fst (images_main (always (Body accented_error)) (Some ''k'') (PurePosixPath ''site/images'')
          two_prompts world0) = Inl (LibraryError ''codec cannot encode character'')
   \<and> requests_of (timeline (snd (images_main (always (Body accented_error)) (Some ''k'')
        (PurePosixPath ''site/images'') two_prompts world0)))
       = [images_request (Some ''k'') ''a plant'']
   \<and> stdout (snd (images_main (always (Body accented_error)) (Some ''k'')
        (PurePosixPath ''site/images'') two_prompts world0))
       = [''Starting IWT image generation...'' @ nl,
          ''Generating 2 images in isometric flat-color style'' @ nl,
          ''Generating: plant...'']
   \<and> exit_code (fst (images_script (Some ''k'') (always (Body accented_error))
        (PurePosixPath ''site'') two_prompts world0)) = 1
   \<and> fst (process_main (always (Body accented_error)) (Some ''k'') (PurePosixPath ''site/images'')
          two_prompts world0) = Inl (LibraryError ''codec cannot encode character'')
   \<and> requests_of (timeline (snd (process_main (always (Body accented_error)) (Some ''k'')
        (PurePosixPath ''site/images'') two_prompts world0)))
       = [process_request (Some ''k'') ''a plant'' None]
   \<and> stdout (snd (process_main (always (Body accented_error)) (Some ''k'')
        (PurePosixPath ''site/images'') two_prompts world0))
       = [''Generating process step images for science section flipbook...'' @ nl,
          ''Each image will be fed into the next for visual continuity.'' @ nl,
          ''Generating: plant (step 1/6)...'']
   \<and> exit_code (fst (process_script (Some ''k'') (always (Body accented_error))
        (PurePosixPath ''site'') two_prompts world0)) = 1"
  by code_simp

subsection \<open>The hero script\<close>

lemma scan_none: "inline_payloads result = [] \<Longrightarrow> scan_candidates (get_candidates result) = None"
  by (simp add: inline_payloads_def scan_candidates_payloads)

text \<open>
  C10: when the \<open>images\<close> directory can be made and the service answers with a body
  that has no inline image, the hero script ends with exit code 0, having printed
  \<open>Generating hero background...\<close> and \<open>No image generated\<close> and written no file;
  on the same body without an \<open>'error'\<close> key the batch scripts raise
  \<open>Exception('No image in response')\<close>.
\<close>

theorem hero_without_image_exits_normally:
  assumes "path_join here ''images'' \<notin> dom (files w)"
    and "remote (timeline (snd (mkdir (path_join here ''images'') w))) (hero_request API_KEY p)
           = Body result"
    and "inline_payloads result = []"
  shows "fst (hero_script API_KEY remote here p w) = Exit 0
       \<and> exit_code (fst (hero_script API_KEY remote here p w)) = 0
       \<and> stdout (snd (hero_script API_KEY remote here p w)) =
           stdout w @ [''Generating hero background...'', ''No image generated'']
       \<and> files (snd (hero_script API_KEY remote here p w)) = files w
       \<and> writes_of (timeline (snd (hero_script API_KEY remote here p w))) = writes_of (timeline w)
       \<and> (error result = None \<longrightarrow> read_result result = Inl (Exception ''No image in response''))"
  using assms
  by (auto simp: hero_script_def hero_generate_image_def and_then_def mkdir_def urlopen_def
        scan_none read_result_def print_def)

theorem hero_without_image_exits_normally_witness:
  "path_join (PurePosixPath ''site'') ''images'' \<notin> dom (files world0)
   \<and> inline_payloads text_response = []
   \<and> fst (hero_script None (always (Body text_response)) (PurePosixPath ''site'') ''a hero'' world0)
       = Exit 0
   \<and> stdout (snd (hero_script None (always (Body text_response)) (PurePosixPath ''site'')
                     ''a hero'' world0)) =
       [''Generating hero background...'', ''No image generated'']
   \<and> files (snd (hero_script None (always (Body text_response)) (PurePosixPath ''site'')
                    ''a hero'' world0)) = Map.empty
   \<and> read_result text_response = Inl (Exception ''No image in response'')"
proof -
  have d: "path_join (PurePosixPath ''site'') ''images'' \<notin> dom (files world0)"
    by (simp add: world0_def)
  have r: "always (Body text_response)
             (timeline (snd (mkdir (path_join (PurePosixPath ''site'') ''images'') world0)))
             (hero_request None ''a hero'') = Body text_response"
    by (simp add: always_def)
  have n: "inline_payloads text_response = []"
    by (simp add: text_response_def inline_payloads_def get_candidates_def candidate_parts_def
          List.map_filter_def)
  have e: "error text_response = None" by (simp add: text_response_def)
  from hero_without_image_exits_normally [where remote = "always (Body text_response)"
      and here = "PurePosixPath ''site''" and w = world0 and API_KEY = None and p = "''a hero''"
      and result = text_response, OF d r n] d n e
  show ?thesis
    by (simp add: world0_def)
qed

end
